theory Spec2Isabelle
  imports Main "HOL-Library.AList"
begin

section \<open>Python text\<close>

text \<open>
  A Python \<open>str\<close> is a sequence of Unicode code points, a \<open>bytes\<close> object a sequence of
  numbers below 256.  Both are lists of naturals here; \<open>str\<close> writes an ASCII literal.
\<close>

type_synonym pystr = "nat list"
type_synonym pybytes = "nat list"

definition str :: "string \<Rightarrow> pystr" where
  "str s = map of_char s"

datatype error =
    UnicodeEncodeError
  | UnicodeDecodeError
  | AttributeError
  | IndexError
  | TypeError
  | LibraryError pystr

text \<open>\<open>str.isspace\<close>, the characters removed by \<open>str.strip()\<close>.\<close>

definition isspace :: "nat \<Rightarrow> bool" where
  "isspace c \<longleftrightarrow>
     (9 \<le> c \<and> c \<le> 13) \<or> (28 \<le> c \<and> c \<le> 32) \<or> c = 133 \<or> c = 160 \<or> c = 5760 \<or>
     (8192 \<le> c \<and> c \<le> 8202) \<or> c = 8232 \<or> c = 8233 \<or> c = 8239 \<or> c = 8287 \<or> c = 12288"

text \<open>The line boundaries of \<open>str.splitlines()\<close>.\<close>

definition is_linebreak :: "nat \<Rightarrow> bool" where
  "is_linebreak c \<longleftrightarrow>
     (10 \<le> c \<and> c \<le> 13) \<or> (28 \<le> c \<and> c \<le> 30) \<or> c = 133 \<or> c = 8232 \<or> c = 8233"

definition strip :: "pystr \<Rightarrow> pystr" where
  "strip s = rev (dropWhile isspace (rev (dropWhile isspace s)))"

function splitlines :: "pystr \<Rightarrow> pystr list" where
  "splitlines s =
     (if s = [] then []
      else takeWhile (\<lambda>c. \<not> is_linebreak c) s #
        (case dropWhile (\<lambda>c. \<not> is_linebreak c) s of
           [] \<Rightarrow> []
         | b # r \<Rightarrow> splitlines (if b = 13 \<and> take 1 r = [10] then tl r else r)))"
  by pat_completeness auto
termination
proof (relation "measure length", goal_cases)
  case 1
  show ?case by simp
next
  case (2 s b r)
  have "length (dropWhile (\<lambda>c. \<not> is_linebreak c) s) \<le> length s"
    by (rule length_dropWhile_le)
  with 2 show ?case by (auto simp: less_Suc_eq_le le_diff_conv)
qed

declare splitlines.simps [simp del]

fun join :: "pystr \<Rightarrow> pystr list \<Rightarrow> pystr" where
  "join sep [] = []"
| "join sep [x] = x"
| "join sep (x # y # ys) = x @ sep @ join sep (y # ys)"

text \<open>\<open>re.sub(r'C+', r, text)\<close> for a character class \<open>C\<close>: every maximal run of
  characters of the class is replaced by \<open>r\<close>.\<close>

function sub_runs :: "(nat \<Rightarrow> bool) \<Rightarrow> nat \<Rightarrow> pystr \<Rightarrow> pystr" where
  "sub_runs C r [] = []"
| "sub_runs C r (c # cs) =
     (if C c then r # sub_runs C r (dropWhile C cs) else c # sub_runs C r cs)"
  by pat_completeness auto
termination
  by (relation "measure (\<lambda>(C, r, s). length s)") (auto simp: less_Suc_eq_le length_dropWhile_le)

text \<open>\<open>re.sub(r'(\\n)+', '\n', text)\<close>: every maximal run of the two-character sequence
  backslash, \<open>n\<close> is replaced by one newline.  The flag says that the run has started.\<close>

fun sub_escaped_newlines :: "bool \<Rightarrow> pystr \<Rightarrow> pystr" where
  "sub_escaped_newlines run (a # b # cs) =
     (if a = 92 \<and> b = 110
      then (if run then sub_escaped_newlines True cs else 10 # sub_escaped_newlines True cs)
      else a # sub_escaped_newlines False (b # cs))"
| "sub_escaped_newlines run cs = cs"

section \<open>The codecs\<close>

text \<open>\<open>str.encode("utf-8")\<close>: surrogates cannot be encoded.\<close>

definition utf8_char :: "nat \<Rightarrow> error + pybytes" where
  "utf8_char c =
     (if c < 128 then Inr [c]
      else if c < 2048 then Inr [192 + c div 64, 128 + c mod 64]
      else if 55296 \<le> c \<and> c \<le> 57343 then Inl UnicodeEncodeError
      else if c < 65536 then Inr [224 + c div 4096, 128 + (c div 64) mod 64, 128 + c mod 64]
      else if c < 1114112 then
        Inr [240 + c div 262144, 128 + (c div 4096) mod 64, 128 + (c div 64) mod 64, 128 + c mod 64]
      else Inl UnicodeEncodeError)"

fun encode_utf8 :: "pystr \<Rightarrow> error + pybytes" where
  "encode_utf8 [] = Inr []"
| "encode_utf8 (c # cs) =
     (case utf8_char c of
        Inl e \<Rightarrow> Inl e
      | Inr bs \<Rightarrow> (case encode_utf8 cs of Inl e \<Rightarrow> Inl e | Inr rest \<Rightarrow> Inr (bs @ rest)))"

definition hex_digit :: "nat \<Rightarrow> nat option" where
  "hex_digit c =
     (if 48 \<le> c \<and> c \<le> 57 then Some (c - 48)
      else if 97 \<le> c \<and> c \<le> 102 then Some (c - 87)
      else if 65 \<le> c \<and> c \<le> 70 then Some (c - 55)
      else None)"

text \<open>The \<open>hexescape\<close> loop of the decoder: exactly \<open>count\<close> hexadecimal digits.\<close>

fun hex_escape :: "nat \<Rightarrow> nat \<Rightarrow> pybytes \<Rightarrow> (nat \<times> pybytes) option" where
  "hex_escape 0 ch s = Some (ch, s)"
| "hex_escape (Suc count) ch [] = None"
| "hex_escape (Suc count) ch (c # s) =
     (case hex_digit c of None \<Rightarrow> None | Some d \<Rightarrow> hex_escape count (16 * ch + d) s)"

definition is_octal :: "nat \<Rightarrow> bool" where
  "is_octal c \<longleftrightarrow> 48 \<le> c \<and> c \<le> 55"

text \<open>An octal escape has one to three digits; the first has been read.\<close>

definition octal_escape :: "nat \<Rightarrow> pybytes \<Rightarrow> nat \<times> pybytes" where
  "octal_escape c s =
     (case s of
        [] \<Rightarrow> (c - 48, s)
      | d1 # s1 \<Rightarrow>
          if is_octal d1 then
            (case s1 of
               [] \<Rightarrow> (8 * (c - 48) + (d1 - 48), s1)
             | d2 # s2 \<Rightarrow>
                 if is_octal d2 then (8 * (8 * (c - 48) + (d1 - 48)) + (d2 - 48), s2)
                 else (8 * (c - 48) + (d1 - 48), s1))
          else (c - 48, s))"

text \<open>The one-character escapes.\<close>

definition simple_escape :: "nat \<Rightarrow> nat option" where
  "simple_escape c =
     (if c = 92 then Some 92
      else if c = 39 then Some 39
      else if c = 34 then Some 34
      else if c = 98 then Some 8
      else if c = 102 then Some 12
      else if c = 116 then Some 9
      else if c = 110 then Some 10
      else if c = 114 then Some 13
      else if c = 118 then Some 11
      else if c = 97 then Some 7
      else None)"

text \<open>
  \<open>bytes.decode("unicode_escape")\<close> with the default strict error handling.  A byte
  that is not a backslash is a Latin-1 character.  After a backslash: a newline is
  skipped, the one-character escapes, octal escapes, \<open>\xXX\<close>, \<open>\uXXXX\<close>,
  \<open>\UXXXXXXXX\<close> and \<open>\N{name}\<close> are decoded, and any other character is kept
  together with the backslash.  A backslash at the end, a truncated or non-hexadecimal
  escape, a code point above \<open>0x10FFFF\<close> and an unknown name raise
  \<open>UnicodeDecodeError\<close>.  The table of character names is the parameter \<open>names\<close>.
\<close>

function decode_unicode_escape :: "(pybytes \<Rightarrow> nat option) \<Rightarrow> pybytes \<Rightarrow> error + pystr" where
  "decode_unicode_escape names [] = Inr []"
| "decode_unicode_escape names (c # s) =
     (if c \<noteq> 92 then map_sum id (Cons c) (decode_unicode_escape names s)
      else
        (case s of
           [] \<Rightarrow> Inl UnicodeDecodeError
         | e # t \<Rightarrow>
             if e = 10 then decode_unicode_escape names t
             else if simple_escape e \<noteq> None
               then map_sum id (Cons (the (simple_escape e))) (decode_unicode_escape names t)
             else if is_octal e
               then map_sum id (Cons (fst (octal_escape e t)))
                      (decode_unicode_escape names (snd (octal_escape e t)))
             else if e = 120 \<or> e = 117 \<or> e = 85 then
               (case hex_escape (if e = 120 then 2 else if e = 117 then 4 else 8) 0 t of
                  None \<Rightarrow> Inl UnicodeDecodeError
                | Some (ch, u) \<Rightarrow>
                    if ch > 1114111 then Inl UnicodeDecodeError
                    else map_sum id (Cons ch) (decode_unicode_escape names u))
             else if e = 78 then
               (case t of
                  [] \<Rightarrow> Inl UnicodeDecodeError
                | b # u \<Rightarrow>
                    if b = 123 \<and> dropWhile (\<lambda>x. x \<noteq> 125) u \<noteq> []
                       \<and> takeWhile (\<lambda>x. x \<noteq> 125) u \<noteq> [] then
                      (case names (takeWhile (\<lambda>x. x \<noteq> 125) u) of
                         None \<Rightarrow> Inl UnicodeDecodeError
                       | Some ch \<Rightarrow>
                           map_sum id (Cons ch)
                             (decode_unicode_escape names (tl (dropWhile (\<lambda>x. x \<noteq> 125) u))))
                    else Inl UnicodeDecodeError)
             else map_sum id (\<lambda>r. 92 # e # r) (decode_unicode_escape names t)))"
  by pat_completeness auto
termination
proof (relation "measure (\<lambda>(names, s). length s)", goal_cases)
  case 1
  show ?case by simp
next
  case (2 names c s)
  then show ?case by simp
next
  case (3 names c s e t)
  then show ?case by simp
next
  case (4 names c s e t)
  then show ?case by simp
next
  case (5 names c s e t)
  have "length (snd (octal_escape e t)) \<le> length t"
    by (simp add: octal_escape_def split: list.split)
  with 5 show ?case by simp
next
  case (6 names c s e t x ch u)
  have "hex_escape n a v = Some (b, w) \<Longrightarrow> length w \<le> length v" for n a v b w
    by (induction n a v rule: hex_escape.induct) (auto split: option.splits)
  with 6 have "length u \<le> length t" by metis
  with 6 show ?case by simp
next
  case (7 names c s e t b u ch)
  have "length (dropWhile (\<lambda>x. x \<noteq> 125) u) \<le> length u"
    by (rule length_dropWhile_le)
  with 7 show ?case by simp
next
  case (8 names c s e t)
  then show ?case by simp
qed

declare decode_unicode_escape.simps [simp del]

section \<open>The text normalizer\<close>

text \<open>Steps 3 to 6 of \<open>_clean_content\<close>: the part after the escape decoding.\<close>

definition collapse_whitespace :: "pystr \<Rightarrow> pystr" where
  "collapse_whitespace text =
     (let text = sub_runs (\<lambda>c. c = 10) 10 text;
          text = sub_runs (\<lambda>c. c = 32 \<or> c = 9) 32 text;
          text = map (\<lambda>c. if c = 160 then 32 else c) text;
          lines = splitlines text;
          lines = filter (\<lambda>line. line \<noteq> []) (map strip lines)
      in join [32] lines)"

text \<open>\<open>_clean_content\<close>: an exception of the encoder or of the decoder is not caught.\<close>

definition clean_content :: "(pybytes \<Rightarrow> nat option) \<Rightarrow> pystr \<Rightarrow> error + pystr" where
  "clean_content names text =
     (case encode_utf8 (sub_escaped_newlines False text) of
        Inl e \<Rightarrow> Inl e
      | Inr bytes \<Rightarrow>
          (case decode_unicode_escape names bytes of
             Inl e \<Rightarrow> Inl e
           | Inr text \<Rightarrow> Inr (collapse_whitespace text)))"

text \<open>The code points that \<open>encode_utf8\<close> accepts: all but the surrogates.\<close>

definition is_scalar_value :: "nat \<Rightarrow> bool" where
  "is_scalar_value c \<longleftrightarrow> c < 55296 \<or> (57343 < c \<and> c < 1114112)"

text \<open>
  The shape of a normalized text: no tab, no non-breaking space, no two spaces in a row
  (\<open>spaced\<close>), and moreover no line boundary and no white space at either end
  (\<open>tidy\<close>).
\<close>

definition spaced :: "pystr \<Rightarrow> bool" where
  "spaced s \<longleftrightarrow> (\<forall>c\<in>set s. c \<noteq> 9 \<and> c \<noteq> 160) \<and> successively (\<lambda>a b. \<not> (a = 32 \<and> b = 32)) s"

definition tidy :: "pystr \<Rightarrow> bool" where
  "tidy s \<longleftrightarrow> spaced s \<and> (\<forall>c\<in>set s. \<not> is_linebreak c) \<and>
     (s \<noteq> [] \<longrightarrow> \<not> isspace (hd s) \<and> \<not> isspace (last s))"

section \<open>The parsed page\<close>

text \<open>
  The tree that \<open>BeautifulSoup(html, "html.parser")\<close> builds: text, comments (and the
  other strings that are not text), and tags with their name, their list of classes,
  their other attributes and their children.  The soup itself is the tag
  \<open>[document]\<close> at the root.
\<close>

datatype node =
    Text pystr
  | Comment pystr
  | Element (name: pystr) (classes: "pystr list") (attrs: "(pystr \<times> pystr) list")
      (contents: "node list")

text \<open>A tag as the extractor holds it: the node with its parents (the nearest first) and
  the siblings that follow it.\<close>

record tag =
  parents :: "node list"
  next_siblings :: "node list"
  node :: node

fun is_tag :: "node \<Rightarrow> bool" where
  "is_tag (Element n c a ch) = True"
| "is_tag _ = False"

text \<open>Everything below the given parents, in document order.\<close>

fun elements_of :: "node list \<Rightarrow> node list \<Rightarrow> tag list" where
  "elements_of ps [] = []"
| "elements_of ps (Element n c a ch # sibs) =
     \<lparr>parents = ps, next_siblings = sibs, node = Element n c a ch\<rparr> #
     elements_of (Element n c a ch # ps) ch @ elements_of ps sibs"
| "elements_of ps (x # sibs) =
     \<lparr>parents = ps, next_siblings = sibs, node = x\<rparr> # elements_of ps sibs"

fun descendants :: "tag \<Rightarrow> tag list" where
  "descendants t =
     (case node t of
        Element n c a ch \<Rightarrow> elements_of (node t # parents t) ch
      | _ \<Rightarrow> [])"

definition soup_tag :: "node \<Rightarrow> tag" where
  "soup_tag soup = \<lparr>parents = [], next_siblings = [], node = soup\<rparr>"

text \<open>\<open>tag.get(key)\<close>.\<close>

definition get_attr :: "node \<Rightarrow> pystr \<Rightarrow> pystr option" where
  "get_attr x key = (case x of Element n c a ch \<Rightarrow> map_of a key | _ \<Rightarrow> None)"

text \<open>The strings of \<open>get_text\<close> and \<open>.text\<close>: the text below a node, without the
  comments.\<close>

definition all_strings :: "node \<Rightarrow> pystr list" where
  "all_strings x =
     concat (map (\<lambda>t. case node t of Text s \<Rightarrow> [s] | _ \<Rightarrow> []) (descendants (soup_tag x)))"

definition text_of :: "node \<Rightarrow> pystr" where
  "text_of x = concat (all_strings x)"

text \<open>\<open>get_text(strip=True, separator=sep)\<close>.\<close>

definition get_text_stripped :: "pystr \<Rightarrow> node \<Rightarrow> pystr" where
  "get_text_stripped sep x = join sep (filter (\<lambda>s. s \<noteq> []) (map strip (all_strings x)))"

text \<open>\<open>tag.string\<close>: the only child when it is a string, or the \<open>string\<close> of the only
  child.\<close>

fun node_string :: "node \<Rightarrow> pystr option" where
  "node_string (Text s) = Some s"
| "node_string (Comment s) = Some s"
| "node_string (Element n c a [x]) = node_string x"
| "node_string (Element n c a ch) = None"

definition named :: "pystr \<Rightarrow> node \<Rightarrow> bool" where
  "named n x \<longleftrightarrow> is_tag x \<and> name x = n"

definition has_class :: "pystr \<Rightarrow> node \<Rightarrow> bool" where
  "has_class c x \<longleftrightarrow> is_tag x \<and> c \<in> set (classes x)"

text \<open>\<open>find_all\<close> and \<open>find\<close> below a node, with a test on the tags.\<close>

definition find_all :: "node \<Rightarrow> (node \<Rightarrow> bool) \<Rightarrow> node list" where
  "find_all x P = filter (\<lambda>y. is_tag y \<and> P y) (map node (descendants (soup_tag x)))"

definition find_first :: "node \<Rightarrow> (node \<Rightarrow> bool) \<Rightarrow> node option" where
  "find_first x P = (case find_all x P of [] \<Rightarrow> None | y # ys \<Rightarrow> Some y)"

subsection \<open>CSS selectors\<close>

text \<open>
  The selectors of the extractor are sequences of compound selectors (a tag name, an
  id, classes; each optional) joined by the descendant combinator (a space) or the
  child combinator (\<open>>\<close>).  A selector is written from its last compound backwards.
\<close>

record compound =
  sel_name :: "pystr option"
  sel_id :: "pystr option"
  sel_classes :: "pystr list"

datatype combinator = Descendant | Child

type_synonym selector = "compound \<times> (combinator \<times> compound) list"

definition matches_compound :: "compound \<Rightarrow> node \<Rightarrow> bool" where
  "matches_compound c x \<longleftrightarrow>
     is_tag x \<and>
     (case sel_name c of None \<Rightarrow> True | Some n \<Rightarrow> name x = n) \<and>
     (case sel_id c of None \<Rightarrow> True | Some i \<Rightarrow> get_attr x (str ''id'') = Some i) \<and>
     (\<forall>k\<in>set (sel_classes c). k \<in> set (classes x))"

fun matches_ancestors :: "(combinator \<times> compound) list \<Rightarrow> node list \<Rightarrow> bool" where
  "matches_ancestors [] ps = True"
| "matches_ancestors ((comb, c) # rest) [] = False"
| "matches_ancestors ((Child, c) # rest) (p # ps) =
     (matches_compound c p \<and> matches_ancestors rest ps)"
| "matches_ancestors ((Descendant, c) # rest) (p # ps) =
     ((matches_compound c p \<and> matches_ancestors rest ps) \<or>
      matches_ancestors ((Descendant, c) # rest) ps)"

definition matches :: "selector \<Rightarrow> tag \<Rightarrow> bool" where
  "matches sel t \<longleftrightarrow> matches_compound (fst sel) (node t) \<and> matches_ancestors (snd sel) (parents t)"

definition select :: "tag \<Rightarrow> selector \<Rightarrow> tag list" where
  "select t sel = filter (matches sel) (descendants t)"

definition select_one :: "tag \<Rightarrow> selector \<Rightarrow> tag option" where
  "select_one t sel = (case select t sel of [] \<Rightarrow> None | y # ys \<Rightarrow> Some y)"

abbreviation by_name :: "string \<Rightarrow> compound" where
  "by_name n \<equiv> \<lparr>sel_name = Some (str n), sel_id = None, sel_classes = []\<rparr>"

abbreviation by_class :: "string \<Rightarrow> compound" where
  "by_class c \<equiv> \<lparr>sel_name = None, sel_id = None, sel_classes = [str c]\<rparr>"

abbreviation by_id :: "string \<Rightarrow> compound" where
  "by_id i \<equiv> \<lparr>sel_name = None, sel_id = Some (str i), sel_classes = []\<rparr>"

abbreviation by_name_classes :: "string \<Rightarrow> string list \<Rightarrow> compound" where
  "by_name_classes n cs \<equiv> \<lparr>sel_name = Some (str n), sel_id = None, sel_classes = map str cs\<rparr>"

section \<open>Values\<close>

text \<open>
  The values of the extracted record and of document metadata.  A Python \<open>dict\<close> keeps
  its insertion order: it is an association list without duplicate keys, and
  \<open>d[k] = v\<close> is \<open>AList.update k v d\<close>.  \<open>JTags\<close> is a list of tags of the page.
\<close>

datatype jval =
    JNone
  | JBool bool
  | JNum int
  | JStr pystr
  | JList "jval list"
  | JDict "(pystr \<times> jval) list"
  | JTags "node list"

type_synonym pydict = "(pystr \<times> jval) list"

section \<open>The extractor of company pages\<close>

text \<open>
  \<open>FinDataExtractor\<close> of \<open>fintastic.py\<close>.  Its dictionary \<open>self.data\<close> is passed
  through the extraction steps.
\<close>

definition extract_text_list :: "node \<Rightarrow> selector \<Rightarrow> pystr list" where
  "extract_text_list soup selector =
     map (\<lambda>el. get_text_stripped [32] (node el)) (select (soup_tag soup) selector)"

definition extract_company_name :: "node \<Rightarrow> pydict \<Rightarrow> pydict" where
  "extract_company_name soup data =
     (case select_one (soup_tag soup) (by_name ''h1'', []) of
        None \<Rightarrow> data
      | Some title \<Rightarrow>
          AList.update (str ''company_name'') (JStr (strip (text_of (node title)))) data)"

text \<open>The links of the block \<open>.company-links\<close>: \<open>if label and href\<close>.\<close>

definition add_external_link :: "node \<Rightarrow> pydict \<Rightarrow> pydict" where
  "add_external_link a external_links =
     (let label = get_text_stripped [32] a in
      case get_attr a (str ''href'') of
        None \<Rightarrow> external_links
      | Some href \<Rightarrow>
          if label \<noteq> [] \<and> href \<noteq> [] then AList.update label (JStr href) external_links
          else external_links)"

definition add_ratio :: "tag \<Rightarrow> pydict \<Rightarrow> pydict" where
  "add_ratio li ratios =
     (case select_one li (by_class ''name'', []) of
        None \<Rightarrow> ratios
      | Some key \<Rightarrow>
          (case select_one li (by_class ''value'', []) of
             None \<Rightarrow> ratios
           | Some val \<Rightarrow>
               AList.update (strip (text_of (node key)))
                 (JStr (get_text_stripped [32] (node val))) ratios))"

definition extract_company_info :: "node \<Rightarrow> pydict \<Rightarrow> pydict" where
  "extract_company_info soup data =
     (case select_one (soup_tag soup) (by_class ''company-info'', []) of
        None \<Rightarrow> AList.update (str ''company_info'') (JDict []) data
      | Some company_info \<Rightarrow>
          (let info = [];
               info =
                 (case select_one company_info
                         (by_class ''about'', [(Descendant, by_class ''company-profile'')]) of
                    None \<Rightarrow> info
                  | Some about \<Rightarrow>
                      AList.update (str ''about'') (JStr (get_text_stripped [32] (node about))) info);
               info =
                 (case select_one company_info
                         (by_class ''commentary'', [(Descendant, by_class ''company-profile'')]) of
                    None \<Rightarrow> info
                  | Some key_points \<Rightarrow>
                      AList.update (str ''key_points'')
                        (JStr (get_text_stripped [10] (node key_points))) info);
               external_links =
                 (case select_one company_info (by_class ''company-links'', []) of
                    None \<Rightarrow> []
                  | Some links_block \<Rightarrow>
                      fold add_external_link (find_all (node links_block) (named (str ''a''))) []);
               info =
                 (if external_links \<noteq> []
                  then AList.update (str ''external_links'') (JDict external_links) info
                  else info);
               ratios =
                 fold add_ratio
                   (select company_info (by_name ''li'', [(Descendant, by_id ''top-ratios'')])) [];
               info =
                 (if ratios \<noteq> [] then AList.update (str ''top_ratios'') (JDict ratios) info
                  else info)
           in AList.update (str ''company_info'') (JDict info) data))"

definition extract_pros_cons :: "node \<Rightarrow> pydict \<Rightarrow> pydict" where
  "extract_pros_cons soup data =
     (let pros = extract_text_list soup (by_name ''li'', [(Descendant, by_class ''pros'')]);
          cons = extract_text_list soup (by_name ''li'', [(Descendant, by_class ''cons'')])
      in AList.update (str ''cons'') (JList (map JStr cons))
           (AList.update (str ''pros'') (JList (map JStr pros)) data))"

subsection \<open>Tables\<close>

text \<open>
  The rows of a table, as \<open>extract_tables\<close> and \<open>extract_shareholding_pattern\<close> read
  them: the headers are all the \<open>th\<close> cells of the table, the first \<open>tr\<close> is left out,
  a row without \<open>td\<close> cells is left out, and \<open>dict(zip(headers, cells))\<close> is the row.
\<close>

definition zip_dict :: "pystr list \<Rightarrow> pystr list \<Rightarrow> pydict" where
  "zip_dict headers cells = fold (\<lambda>(k, v). AList.update k (JStr v)) (zip headers cells) []"

definition row_cells :: "node \<Rightarrow> pystr list" where
  "row_cells tr = map (\<lambda>td. strip (text_of td)) (find_all tr (named (str ''td'')))"

definition table_rows :: "node \<Rightarrow> jval list" where
  "table_rows table =
     (let headers = map (\<lambda>th. strip (text_of th)) (find_all table (named (str ''th'')))
      in map (\<lambda>cells. JDict (zip_dict headers cells))
           (filter (\<lambda>cells. cells \<noteq> []) (map row_cells (tl (find_all table (named (str ''tr'')))))))"

definition is_data_table :: "node \<Rightarrow> bool" where
  "is_data_table x \<longleftrightarrow> named (str ''table'') x \<and> has_class (str ''data-table'') x"

text \<open>\<open>find_previous\<close> of the tag at position \<open>i\<close> of the page: the nearest tag before
  it in document order that passes the test.\<close>

definition find_previous :: "tag list \<Rightarrow> nat \<Rightarrow> (node \<Rightarrow> bool) \<Rightarrow> node option" where
  "find_previous page i P = find (\<lambda>y. is_tag y \<and> P y) (rev (map node (take i page)))"

text \<open>\<open>find_next\<close>: the first such tag after it.\<close>

definition find_next :: "tag list \<Rightarrow> nat \<Rightarrow> (node \<Rightarrow> bool) \<Rightarrow> node option" where
  "find_next page i P = find (\<lambda>y. is_tag y \<and> P y) (map node (drop (Suc i) page))"

definition is_h2_or_h3 :: "node \<Rightarrow> bool" where
  "is_h2_or_h3 x \<longleftrightarrow> named (str ''h2'') x \<or> named (str ''h3'') x"

text \<open>The body of the loop of \<open>extract_tables\<close> for the table at position \<open>i\<close>; the
  test says which headings \<open>find_previous\<close> looks for.\<close>

definition store_table :: "(node \<Rightarrow> bool) \<Rightarrow> tag list \<Rightarrow> nat \<Rightarrow> pydict \<Rightarrow> pydict" where
  "store_table heading page i data =
     (case find_previous page i heading of
        None \<Rightarrow> data
      | Some header \<Rightarrow>
          AList.update (strip (text_of header)) (JList (table_rows (node (page ! i)))) data)"

definition extract_tables :: "node \<Rightarrow> pydict \<Rightarrow> pydict" where
  "extract_tables soup data =
     (let page = descendants (soup_tag soup);
          tables = filter (\<lambda>i. is_data_table (node (page ! i))) [0..<length page]
      in fold (store_table is_h2_or_h3 page) tables data)"

subsection \<open>The shareholding pattern\<close>

text \<open>
  \<open>re.compile("Shareholding Pattern", re.I).search\<close>: the pattern occurs in the text,
  letters compared without case.  Besides the two ASCII cases, \<open>s\<close> matches the long s
  (383), \<open>i\<close> the dotted capital and the dotless small i (304, 305), \<open>k\<close> the Kelvin
  sign (8490).
\<close>

definition ascii_lower :: "nat \<Rightarrow> nat" where
  "ascii_lower c = (if 65 \<le> c \<and> c \<le> 90 then c + 32 else c)"

definition ci_char :: "nat \<Rightarrow> nat \<Rightarrow> bool" where
  "ci_char p c \<longleftrightarrow>
     ascii_lower c = ascii_lower p \<or> (ascii_lower p = 115 \<and> c = 383) \<or>
     (ascii_lower p = 105 \<and> (c = 304 \<or> c = 305)) \<or> (ascii_lower p = 107 \<and> c = 8490)"

fun ci_prefix :: "pystr \<Rightarrow> pystr \<Rightarrow> bool" where
  "ci_prefix [] text = True"
| "ci_prefix (p # ps) [] = False"
| "ci_prefix (p # ps) (c # cs) = (ci_char p c \<and> ci_prefix ps cs)"

fun ci_search :: "pystr \<Rightarrow> pystr \<Rightarrow> bool" where
  "ci_search pat [] = (pat = [])"
| "ci_search pat (c # cs) = (ci_prefix pat (c # cs) \<or> ci_search pat cs)"

definition is_shareholding_header :: "node \<Rightarrow> bool" where
  "is_shareholding_header x \<longleftrightarrow>
     named (str ''h2'') x \<and>
     (case node_string x of None \<Rightarrow> False | Some s \<Rightarrow> ci_search (str ''Shareholding Pattern'') s)"

definition extract_shareholding_pattern :: "node \<Rightarrow> pydict \<Rightarrow> pydict" where
  "extract_shareholding_pattern soup data =
     (case find (\<lambda>t. is_shareholding_header (node t)) (descendants (soup_tag soup)) of
        None \<Rightarrow> data
      | Some header \<Rightarrow>
          (case find (named (str ''table'')) (next_siblings header) of
             None \<Rightarrow> data
           | Some table \<Rightarrow>
               AList.update (str ''Shareholding Pattern'') (JList (table_rows table)) data))"

subsection \<open>Document links\<close>

text \<open>The entry of a list item: its first link, when it has one.\<close>

definition announcement_of :: "node \<Rightarrow> jval list" where
  "announcement_of li =
     (case find_first li (named (str ''a'')) of
        None \<Rightarrow> []
      | Some a_tag \<Rightarrow>
          [JDict [(str ''title'', JStr (strip (text_of a_tag))),
                  (str ''url'', case get_attr a_tag (str ''href'') of None \<Rightarrow> JNone | Some u \<Rightarrow> JStr u)]])"

definition is_documents_header :: "node \<Rightarrow> bool" where
  "is_documents_header x \<longleftrightarrow> named (str ''h2'') x \<and> node_string x = Some (str ''Documents'')"

text \<open>\<open>find_index\<close>: the position of the first element that passes a test.\<close>

fun find_index :: "('a \<Rightarrow> bool) \<Rightarrow> 'a list \<Rightarrow> nat option" where
  "find_index P [] = None"
| "find_index P (x # xs) = (if P x then Some 0 else map_option Suc (find_index P xs))"

definition extract_announcements :: "node \<Rightarrow> jval list" where
  "extract_announcements soup =
     (let page = descendants (soup_tag soup) in
      case find_index (\<lambda>t. is_tag (node t) \<and> is_documents_header (node t)) page of
        None \<Rightarrow> []
      | Some i \<Rightarrow>
          (case find_next page i (named (str ''ul'')) of
             None \<Rightarrow> []
           | Some parent \<Rightarrow> concat (map announcement_of (find_all parent (named (str ''li''))))))"

text \<open>
  \<open>a_tag.contents[0].strip()\<close>.  Without contents the index raises.  On a string it is
  the stripped string.  On a tag, \<open>.strip\<close> is the first \<open>strip\<close> tag below it: none,
  and the call raises \<open>TypeError\<close>; one, and the call gives all the tags below that one.
\<close>

definition first_content_stripped :: "node \<Rightarrow> error + jval" where
  "first_content_stripped a_tag =
     (case contents a_tag of
        [] \<Rightarrow> Inl IndexError
      | Text s # rest \<Rightarrow> Inr (JStr (strip s))
      | Comment s # rest \<Rightarrow> Inr (JStr (strip s))
      | Element n c a ch # rest \<Rightarrow>
          (case find_first (Element n c a ch) (named (str ''strip'')) of
             None \<Rightarrow> Inl TypeError
           | Some f \<Rightarrow> Inr (JTags (find_all f (\<lambda>x. True)))))"

fun annual_reports_of :: "node list \<Rightarrow> error + jval list" where
  "annual_reports_of [] = Inr []"
| "annual_reports_of (li # lis) =
     (case find_first li (named (str ''a'')) of
        None \<Rightarrow> annual_reports_of lis
      | Some a_tag \<Rightarrow>
          (case first_content_stripped a_tag of
             Inl e \<Rightarrow> Inl e
           | Inr title \<Rightarrow>
               (case annual_reports_of lis of
                  Inl e \<Rightarrow> Inl e
                | Inr reports \<Rightarrow>
                    Inr (JDict [(str ''title'', title),
                                (str ''url'', case get_attr a_tag (str ''href'') of
                                                None \<Rightarrow> JNone | Some u \<Rightarrow> JStr u)] # reports))))"

definition extract_annual_reports :: "node \<Rightarrow> error + jval list" where
  "extract_annual_reports soup =
     (case select_one (soup_tag soup)
             (by_name_classes ''ul'' [''list-links''],
              [(Descendant, by_name_classes ''div'' [''documents'', ''annual-reports''])]) of
        None \<Rightarrow> Inr []
      | Some ar_section \<Rightarrow> annual_reports_of (find_all (node ar_section) (named (str ''li''))))"

definition is_concall_link :: "string \<Rightarrow> node \<Rightarrow> bool" where
  "is_concall_link n x \<longleftrightarrow> named (str n) x \<and> has_class (str ''concall-link'') x"

text \<open>The entry of an anchor: \<open>if label and url\<close>.\<close>

definition link_entry :: "node \<Rightarrow> jval list" where
  "link_entry link =
     (let label = get_text_stripped [32] link in
      case get_attr link (str ''href'') of
        None \<Rightarrow> []
      | Some url \<Rightarrow>
          if label \<noteq> [] \<and> url \<noteq> [] then [JDict [(str ''type'', JStr label), (str ''url'', JStr url)]]
          else [])"

text \<open>The entry of a button: its \<open>data-url\<close> after the origin of the site.\<close>

definition button_entry :: "node \<Rightarrow> jval list" where
  "button_entry button =
     (let label = get_text_stripped [32] button;
          full_url =
            (case get_attr button (str ''data-url'') of
               None \<Rightarrow> None
             | Some modal_url \<Rightarrow>
                 if modal_url \<noteq> [] then Some (str ''https://www.screener.in'' @ modal_url)
                 else None)
      in case full_url of
           None \<Rightarrow> []
         | Some u \<Rightarrow>
             if label \<noteq> [] \<and> u \<noteq> [] then [JDict [(str ''type'', JStr label), (str ''url'', JStr u)]]
             else [])"

definition concall_entries :: "node \<Rightarrow> jval list" where
  "concall_entries li =
     concat (map link_entry (find_all li (is_concall_link ''a''))) @
     concat (map button_entry (find_all li (is_concall_link ''button'')))"

definition concall_of :: "node \<Rightarrow> jval list" where
  "concall_of li =
     (let date =
            (case find_first li (named (str ''div'')) of
               None \<Rightarrow> str ''Unknown Date''
             | Some date_div \<Rightarrow> strip (text_of date_div));
          entries = concall_entries li
      in if entries \<noteq> [] then [JDict [(str ''date'', JStr date), (str ''links'', JList entries)]]
         else [])"

definition concall_items :: "node \<Rightarrow> node list" where
  "concall_items soup =
     map node
       (select (soup_tag soup)
          (by_name ''li'',
           [(Child, by_name_classes ''ul'' [''list-links'']),
            (Descendant, by_name_classes ''div'' [''documents'', ''concalls''])]))"

definition extract_concalls :: "node \<Rightarrow> jval list" where
  "extract_concalls soup = concat (map concall_of (concall_items soup))"

definition extract_documents_links :: "node \<Rightarrow> pydict \<Rightarrow> error + pydict" where
  "extract_documents_links soup data =
     (let announcements = extract_announcements soup in
      case extract_annual_reports soup of
        Inl e \<Rightarrow> Inl e
      | Inr annual_reports \<Rightarrow>
          Inr (AList.update (str ''documents'')
                 (JDict [(str ''announcements'', JList announcements),
                         (str ''annual_reports'', JList annual_reports),
                         (str ''concalls'', JList (extract_concalls soup))])
                 data))"

text \<open>\<open>extract_all\<close> on the parsed page; \<open>extract_peer_info\<close> is commented out in the
  source.\<close>

definition extract_all :: "node \<Rightarrow> error + pydict" where
  "extract_all soup =
     (let data = [];
          data = extract_company_name soup data;
          data = extract_company_info soup data;
          data = extract_pros_cons soup data;
          data = extract_tables soup data;
          data = extract_shareholding_pattern soup data
      in extract_documents_links soup data)"

subsection \<open>The extractor of \<open>fin_data_extractor.py\<close>\<close>

text \<open>
  The older extractor fetches with \<open>requests\<close> only.  Its \<open>extract_company_name\<close> reads
  \<open>.text\<close> of the result of \<open>select_one\<close> without a test: on \<open>None\<close> this raises
  \<open>AttributeError\<close>.
\<close>

definition extract_company_name_static :: "node \<Rightarrow> pydict \<Rightarrow> error + pydict" where
  "extract_company_name_static soup data =
     (case select_one (soup_tag soup) (by_name ''h1'', []) of
        None \<Rightarrow> Inl AttributeError
      | Some title \<Rightarrow>
          Inr (AList.update (str ''company_name'') (JStr (strip (text_of (node title)))) data))"

text \<open>\<open>s.split(sep)\<close> for a separator of one character.\<close>

fun split_on :: "nat \<Rightarrow> pystr \<Rightarrow> pystr list" where
  "split_on sep [] = [[]]"
| "split_on sep (c # cs) =
     (if c = sep then [] # split_on sep cs
      else (case split_on sep cs of [] \<Rightarrow> [[c]] | p # ps \<Rightarrow> (c # p) # ps))"

definition add_info :: "tag \<Rightarrow> pydict \<Rightarrow> pydict" where
  "add_info li info =
     (case split_on 58 (get_text_stripped [58] (node li)) of
        [key, val] \<Rightarrow> AList.update (strip key) (JStr (strip val)) info
      | _ \<Rightarrow> info)"

definition extract_info_box :: "node \<Rightarrow> pydict \<Rightarrow> pydict" where
  "extract_info_box soup data =
     AList.update (str ''company_info'')
       (JDict (fold add_info
                 (select (soup_tag soup)
                    (by_name ''li'', [(Descendant, by_name_classes ''ul'' [''info-list''])])) []))
       data"

text \<open>Here \<open>extract_text_list\<close> calls \<open>get_text(strip=True)\<close> without a separator.\<close>

definition extract_pros_cons_static :: "node \<Rightarrow> pydict \<Rightarrow> pydict" where
  "extract_pros_cons_static soup data =
     (let pros = map (\<lambda>el. get_text_stripped [] (node el))
                   (select (soup_tag soup) (by_name ''li'', [(Descendant, by_class ''pros'')]));
          cons = map (\<lambda>el. get_text_stripped [] (node el))
                   (select (soup_tag soup) (by_name ''li'', [(Descendant, by_class ''cons'')]))
      in AList.update (str ''cons'') (JList (map JStr cons))
           (AList.update (str ''pros'') (JList (map JStr pros)) data))"

definition is_peer_section :: "node \<Rightarrow> bool" where
  "is_peer_section x \<longleftrightarrow> named (str ''section'') x \<and> get_attr x (str ''id'') = Some (str ''peers'')"

definition extract_peer_info_static :: "node \<Rightarrow> pydict \<Rightarrow> pydict" where
  "extract_peer_info_static soup data =
     (case find (\<lambda>t. is_peer_section (node t)) (descendants (soup_tag soup)) of
        None \<Rightarrow> data
      | Some peer_section \<Rightarrow>
          (let peer_data = [];
               peer_data =
                 (case find_first (node peer_section)
                         (\<lambda>x. named (str ''p'') x \<and> has_class (str ''sub'') x) of
                    None \<Rightarrow> peer_data
                  | Some sub_text \<Rightarrow>
                      (case find_all sub_text (named (str ''a'')) of
                         [] \<Rightarrow> peer_data
                       | [l0] \<Rightarrow> AList.update (str ''sector'') (JStr (strip (text_of l0))) peer_data
                       | l0 # l1 # ls \<Rightarrow>
                           AList.update (str ''industry'') (JStr (strip (text_of l1)))
                             (AList.update (str ''sector'') (JStr (strip (text_of l0))) peer_data)));
               benchmark_tags =
                 select peer_section
                   (by_name_classes ''a'' [''tag''], [(Descendant, by_id ''benchmarks'')]);
               peer_data =
                 AList.update (str ''benchmarks'')
                   (JList (map (\<lambda>t. JStr (strip (text_of (node t)))) benchmark_tags)) peer_data
           in AList.update (str ''peer_info'') (JDict peer_data) data))"

text \<open>Here \<open>extract_tables\<close> looks for a heading \<open>h2\<close> only.\<close>

definition extract_tables_static :: "node \<Rightarrow> pydict \<Rightarrow> pydict" where
  "extract_tables_static soup data =
     (let page = descendants (soup_tag soup);
          tables = filter (\<lambda>i. is_data_table (node (page ! i))) [0..<length page]
      in fold (store_table (named (str ''h2'')) page) tables data)"

definition extract_documents_links_static :: "node \<Rightarrow> pydict \<Rightarrow> pydict" where
  "extract_documents_links_static soup data =
     AList.update (str ''documents'') (JList (extract_announcements soup)) data"

definition extract_all_static :: "node \<Rightarrow> error + pydict" where
  "extract_all_static soup =
     (case extract_company_name_static soup [] of
        Inl e \<Rightarrow> Inl e
      | Inr data \<Rightarrow>
          (let data = extract_info_box soup data;
               data = extract_pros_cons_static soup data;
               data = extract_peer_info_static soup data;
               data = extract_tables_static soup data;
               data = extract_shareholding_pattern soup data
           in Inr (extract_documents_links_static soup data)))"

section \<open>Documents and the corpus\<close>

text \<open>A LangChain \<open>Document\<close>.\<close>

record document =
  page_content :: pystr
  metadata :: pydict

text \<open>
  The state of one run of \<open>generate_vectorstore\<close>: the two accumulators
  \<open>seen_hashes\<close> and \<open>all_chunks\<close>, the messages given to the logger, and the
  calls of \<open>Chroma.from_documents\<close>, each with the documents it was given.
\<close>

datatype log_event =
    Info pystr
  | InfoCount pystr nat
  | Warning pystr
  | WarningFailed pystr error

record run_state =
  seen_hashes :: "pystr set"
  all_chunks :: "document list"
  log :: "log_event list"
  index_calls :: "document list list"

definition initial_state :: run_state where
  "initial_state = \<lparr>seen_hashes = {}, all_chunks = [], log = [], index_calls = []\<rparr>"

text \<open>
  \<open>str.isalnum\<close> of one character.  Below 128 these are the digits and the letters; the
  Unicode character database decides the others and is the parameter \<open>ucd\<close>.
\<close>

definition isalnum :: "(nat \<Rightarrow> bool) \<Rightarrow> nat \<Rightarrow> bool" where
  "isalnum ucd c \<longleftrightarrow>
     (if c < 128 then (48 \<le> c \<and> c \<le> 57) \<or> (65 \<le> c \<and> c \<le> 90) \<or> (97 \<le> c \<and> c \<le> 122)
      else ucd c)"

text \<open>
  The splitters are objects of the LangChain library.  \<open>_split_and_dedup_docs\<close> asks
  whether the splitter is a \<open>RecursiveJsonSplitter\<close> and calls \<open>create_documents\<close> on
  the one-element list of its input, or else \<open>split_documents\<close> on the input.  The
  input \<open>docs_or_json\<close> is a list of documents or a dictionary.
\<close>

datatype splitter_input = Docs "document list" | Json pydict

datatype splitter =
    RecursiveJsonSplitter "splitter_input list \<Rightarrow> error + document list"
  | DocumentSplitter "splitter_input \<Rightarrow> error + document list"

text \<open>
  What the libraries and the network give to the store: the MD5 digest, the Unicode
  tables, the loaders (\<open>lazy_load\<close> gives the documents it has yielded and the exception
  that ended it, if any), the splitters, \<open>requests\<close> with the parser, \<open>repr\<close> of a
  value that is not a string, and the vector store, whose retriever is its \<open>invoke\<close>.
\<close>

record 'vs collaborators =
  md5_hexdigest :: "pybytes \<Rightarrow> pystr"
  unicode_isalnum :: "nat \<Rightarrow> bool"
  unicode_names :: "pybytes \<Rightarrow> nat option"
  web_base_loader :: "pystr list \<Rightarrow> document list \<times> error option"
  pymupdf_loader :: "pystr \<Rightarrow> error + document list"
  excel_loader :: "pystr \<Rightarrow> error + document list"
  html_splitter :: splitter
  pdf_splitter :: splitter
  excel_splitter :: splitter
  screener_splitter :: splitter
  fetch_and_parse :: "pystr \<Rightarrow> error + node"
  py_repr :: "jval \<Rightarrow> pystr"
  filter_complex_metadata :: "document list \<Rightarrow> document list"
  chroma_from_documents :: "document list \<Rightarrow> error + 'vs"
  as_retriever :: "'vs \<Rightarrow> error + (pystr \<Rightarrow> error + document list)"

text \<open>\<open>_get_content_hash\<close>: the encoder raises on a surrogate.\<close>

definition get_content_hash :: "'vs collaborators \<Rightarrow> pystr \<Rightarrow> error + pystr" where
  "get_content_hash env content =
     (case encode_utf8 content of
        Inl e \<Rightarrow> Inl e
      | Inr bytes \<Rightarrow> Inr (md5_hexdigest env bytes))"

definition already_exists :: "pystr \<Rightarrow> pystr set \<Rightarrow> bool" where
  "already_exists doc_hash hashes_seen \<longleftrightarrow> doc_hash \<in> hashes_seen"

text \<open>The test that lets a chunk through: \<open>len(text) < 20 or not any(c.isalnum() ...)\<close>
  is the test that drops it.\<close>

definition too_poor :: "'vs collaborators \<Rightarrow> pystr \<Rightarrow> bool" where
  "too_poor env text \<longleftrightarrow> length text < 20 \<or> \<not> list_ex (isalnum (unicode_isalnum env)) text"

text \<open>
  The loop over the chunks, the same in both branches of \<open>_split_and_dedup_docs\<close>.  An
  exception leaves the loop with the state as the loop has changed it so far.
\<close>

fun dedup_chunks ::
  "'vs collaborators \<Rightarrow> pystr \<Rightarrow> document list \<Rightarrow> run_state \<Rightarrow> run_state \<times> error option"
where
  "dedup_chunks env source_type [] st = (st, None)"
| "dedup_chunks env source_type (chunk # chunks) st =
     (let text = strip (page_content chunk) in
      if too_poor env text then dedup_chunks env source_type chunks st
      else
        (case get_content_hash env text of
           Inl e \<Rightarrow> (st, Some e)
         | Inr doc_hash \<Rightarrow>
             if \<not> already_exists doc_hash (seen_hashes st) then
               dedup_chunks env source_type chunks
                 (st\<lparr>all_chunks := all_chunks st @
                       [chunk\<lparr>metadata :=
                          AList.update (str ''source_type'') (JStr source_type) (metadata chunk)\<rparr>],
                     seen_hashes := insert doc_hash (seen_hashes st)\<rparr>)
             else dedup_chunks env source_type chunks st))"

definition split_and_dedup_docs ::
  "'vs collaborators \<Rightarrow> splitter_input \<Rightarrow> splitter \<Rightarrow> run_state \<Rightarrow> pystr
   \<Rightarrow> run_state \<times> error option"
where
  "split_and_dedup_docs env docs_or_json splitter st source_type =
     (case splitter of
        RecursiveJsonSplitter create_documents \<Rightarrow>
          (case create_documents [docs_or_json] of
             Inl e \<Rightarrow> (st, Some e)
           | Inr json_chunks \<Rightarrow> dedup_chunks env source_type json_chunks st)
      | DocumentSplitter split_documents \<Rightarrow>
          (case split_documents docs_or_json of
             Inl e \<Rightarrow> (st, Some e)
           | Inr chunks \<Rightarrow> dedup_chunks env source_type chunks st))"

section \<open>From the extracted record to documents\<close>

text \<open>\<open>f"{v}"\<close>: a string is itself, \<open>None\<close> and the truth values have their names,
  and the library writes the numbers, lists and dictionaries.\<close>

definition py_str :: "'vs collaborators \<Rightarrow> jval \<Rightarrow> pystr" where
  "py_str env v =
     (case v of
        JStr s \<Rightarrow> s
      | JNone \<Rightarrow> str ''None''
      | JBool b \<Rightarrow> (if b then str ''True'' else str ''False'')
      | _ \<Rightarrow> py_repr env v)"

definition key_value_lines :: "'vs collaborators \<Rightarrow> pydict \<Rightarrow> pystr" where
  "key_value_lines env d = join [10] (map (\<lambda>(k, v). k @ str '': '' @ py_str env v) d)"

definition render_item :: "'vs collaborators \<Rightarrow> jval \<Rightarrow> pystr" where
  "render_item env item = (case item of JDict d \<Rightarrow> key_value_lines env d | _ \<Rightarrow> py_str env item)"

text \<open>The text of a section, or \<open>None\<close> where the loop says \<open>continue\<close>.  A list of
  tags is a list, and the library writes each tag.\<close>

definition section_text :: "'vs collaborators \<Rightarrow> pystr \<Rightarrow> jval \<Rightarrow> pystr option" where
  "section_text env section content =
     (case content of
        JStr s \<Rightarrow> Some (section @ str '': '' @ s)
      | JList items \<Rightarrow> Some (section @ [58, 10] @ join [10, 10] (map (render_item env) items))
      | JDict d \<Rightarrow> Some (section @ [58, 10] @ key_value_lines env d)
      | JTags tags \<Rightarrow>
          Some (section @ [58, 10] @ join [10, 10] (map (\<lambda>t. py_repr env (JTags [t])) tags))
      | _ \<Rightarrow> None)"

fun convert_screener_json_to_documents ::
  "'vs collaborators \<Rightarrow> pydict \<Rightarrow> error + document list"
where
  "convert_screener_json_to_documents env [] = Inr []"
| "convert_screener_json_to_documents env ((section, content) # json_data) =
     (case section_text env section content of
        None \<Rightarrow> convert_screener_json_to_documents env json_data
      | Some text \<Rightarrow>
          (case clean_content (unicode_names env) text of
             Inl e \<Rightarrow> Inl e
           | Inr cleaned \<Rightarrow>
               (case convert_screener_json_to_documents env json_data of
                  Inl e \<Rightarrow> Inl e
                | Inr docs \<Rightarrow>
                    Inr (\<lparr>page_content = cleaned,
                          metadata = [(str ''section'', JStr section)]\<rparr> # docs))))"

section \<open>The ingestion run\<close>

record fin_vec_store =
  web_urls :: "pystr list"
  pdf_paths :: "pystr list"
  excel_paths :: "pystr list"
  screener_urls :: "pystr list"

definition log_to :: "log_event \<Rightarrow> run_state \<Rightarrow> run_state" where
  "log_to ev st = st\<lparr>log := log st @ [ev]\<rparr>"

text \<open>\<open>for doc in docs: doc.page_content = self._clean_content(doc.page_content)\<close>.\<close>

fun clean_docs :: "'vs collaborators \<Rightarrow> document list \<Rightarrow> error + document list" where
  "clean_docs env [] = Inr []"
| "clean_docs env (doc # docs) =
     (case clean_content (unicode_names env) (page_content doc) of
        Inl e \<Rightarrow> Inl e
      | Inr text \<Rightarrow>
          (case clean_docs env docs of
             Inl e \<Rightarrow> Inl e
           | Inr rest \<Rightarrow> Inr (doc\<lparr>page_content := text\<rparr> # rest)))"

text \<open>The loop over the web pages.\<close>

fun web_pages :: "'vs collaborators \<Rightarrow> document list \<Rightarrow> run_state \<Rightarrow> run_state \<times> error option" where
  "web_pages env [] st = (st, None)"
| "web_pages env (doc # docs) st =
     (case clean_content (unicode_names env) (page_content doc) of
        Inl e \<Rightarrow> (st, Some e)
      | Inr text \<Rightarrow>
          (case split_and_dedup_docs env (Docs [doc\<lparr>page_content := text\<rparr>]) (html_splitter env) st
                  (str ''web'') of
             (st', Some e) \<Rightarrow> (st', Some e)
           | (st', None) \<Rightarrow> web_pages env docs st'))"

text \<open>The loop over the PDF files.\<close>

fun pdf_files :: "'vs collaborators \<Rightarrow> pystr list \<Rightarrow> run_state \<Rightarrow> run_state \<times> error option" where
  "pdf_files env [] st = (st, None)"
| "pdf_files env (file # files) st =
     (case pymupdf_loader env file of
        Inl e \<Rightarrow> (st, Some e)
      | Inr pdf_docs \<Rightarrow>
          (case clean_docs env pdf_docs of
             Inl e \<Rightarrow> (st, Some e)
           | Inr docs \<Rightarrow>
               (case split_and_dedup_docs env (Docs docs) (pdf_splitter env) st (str ''pdf'') of
                  (st', Some e) \<Rightarrow> (st', Some e)
                | (st', None) \<Rightarrow> pdf_files env files st')))"

text \<open>The loop over the spreadsheets.\<close>

fun excel_files :: "'vs collaborators \<Rightarrow> pystr list \<Rightarrow> run_state \<Rightarrow> run_state \<times> error option" where
  "excel_files env [] st = (st, None)"
| "excel_files env (file # files) st =
     (case excel_loader env file of
        Inl e \<Rightarrow> (st, Some e)
      | Inr excel_docs \<Rightarrow>
          (case split_and_dedup_docs env (Docs excel_docs) (excel_splitter env) st (str ''excel'') of
             (st', Some e) \<Rightarrow> (st', Some e)
           | (st', None) \<Rightarrow> excel_files env files st'))"

text \<open>The body of the \<open>try\<close> for one Screener URL.\<close>

definition screener_source :: "'vs collaborators \<Rightarrow> pystr \<Rightarrow> run_state \<Rightarrow> run_state \<times> error option" where
  "screener_source env url st =
     (case fetch_and_parse env url of
        Inl e \<Rightarrow> (st, Some e)
      | Inr soup \<Rightarrow>
          (case extract_all soup of
             Inl e \<Rightarrow> (st, Some e)
           | Inr json_data \<Rightarrow>
               (case convert_screener_json_to_documents env json_data of
                  Inl e \<Rightarrow> (st, Some e)
                | Inr json_docs \<Rightarrow>
                    (case clean_docs env json_docs of
                       Inl e \<Rightarrow> (st, Some e)
                     | Inr docs \<Rightarrow>
                         split_and_dedup_docs env (Docs docs) (screener_splitter env) st
                           (str ''screener'')))))"

text \<open>The loop over the Screener URLs: \<open>except Exception\<close> logs a warning, and the loop
  goes on.\<close>

fun screener_pages :: "'vs collaborators \<Rightarrow> pystr list \<Rightarrow> run_state \<Rightarrow> run_state" where
  "screener_pages env [] st = st"
| "screener_pages env (url # urls) st =
     (case screener_source env url st of
        (st', None) \<Rightarrow> screener_pages env urls st'
      | (st', Some e) \<Rightarrow> screener_pages env urls (log_to (WarningFailed url e) st'))"

text \<open>\<open>len(s.split())\<close>: the number of words of a text.\<close>

fun word_count :: "bool \<Rightarrow> pystr \<Rightarrow> nat" where
  "word_count in_word [] = 0"
| "word_count in_word (c # cs) =
     (if isspace c then word_count False cs
      else (if in_word then 0 else 1) + word_count True cs)"

definition log_vectorstore_metadata :: "'vs collaborators \<Rightarrow> 'vs \<Rightarrow> run_state \<Rightarrow> run_state \<times> error option" where
  "log_vectorstore_metadata env vectorstore st =
     (case as_retriever env vectorstore of
        Inl e \<Rightarrow> (st, Some e)
      | Inr invoke \<Rightarrow>
          (case invoke (str ''ABFRL'') of
             Inl e \<Rightarrow> (log_to (WarningFailed (str ''Metadata estimation failed'') e) st, None)
           | Inr found \<Rightarrow>
               (let sample_docs = take 5 found;
                    total_tokens = sum_list (map (\<lambda>doc. word_count False (page_content doc)) sample_docs)
                in (log_to (InfoCount (str ''Estimated total tokens in sample'') total_tokens)
                      (log_to (InfoCount (str ''Sample documents fetched'') (length sample_docs)) st),
                    None))))"

text \<open>
  The end of \<open>generate_vectorstore\<close>, after the sources: the result is an exception,
  \<open>None\<close>, or the vector store.
\<close>

definition build_index :: "'vs collaborators \<Rightarrow> run_state \<Rightarrow> run_state \<times> (error + 'vs option)" where
  "build_index env st =
     (let st = log_to (InfoCount (str ''Total unique chunks prepared'') (length (all_chunks st))) st;
          filtered_chunks = filter_complex_metadata env (all_chunks st);
          st = log_to (InfoCount (str ''Total chunks before filtering'') (length (all_chunks st))) st;
          st = log_to (InfoCount (str ''Filtered chunks retained'') (length filtered_chunks)) st
      in if filtered_chunks = [] then
           (log_to (Warning (str ''No valid chunks found for embedding. Vectorstore will not be created.'')) st,
            Inr None)
         else
           (let st = log_to (Info (str ''Creating vectorstore with Chroma...'')) st;
                st = st\<lparr>index_calls := index_calls st @ [filtered_chunks]\<rparr>
            in case chroma_from_documents env filtered_chunks of
                 Inl e \<Rightarrow> (st, Inl e)
               | Inr vectorstore \<Rightarrow>
                   (case log_vectorstore_metadata env vectorstore
                           (log_to (Info (str ''Vectorstore created successfully.'')) st) of
                      (st', Some e) \<Rightarrow> (st', Inl e)
                    | (st', None) \<Rightarrow> (st', Inr (Some vectorstore)))))"

text \<open>The four loops over the sources, up to the first exception that is not caught.\<close>

definition load_sources :: "'vs collaborators \<Rightarrow> fin_vec_store \<Rightarrow> run_state \<times> error option" where
  "load_sources env self =
     (let st = log_to (Info (str ''Loading documents from web...'')) initial_state in
      case web_base_loader env (web_urls self) of
        (docs, raised) \<Rightarrow>
          (case web_pages env docs st of
             (st, Some e) \<Rightarrow> (st, Some e)
           | (st, None) \<Rightarrow>
               (case raised of
                  Some e \<Rightarrow> (st, Some e)
                | None \<Rightarrow>
                    (case pdf_files env (pdf_paths self)
                            (log_to (Info (str ''Loading PDF documents...'')) st) of
                       (st, Some e) \<Rightarrow> (st, Some e)
                     | (st, None) \<Rightarrow>
                         (case excel_files env (excel_paths self)
                                 (log_to (Info (str ''Loading excel spreadsheets...'')) st) of
                            (st, Some e) \<Rightarrow> (st, Some e)
                          | (st, None) \<Rightarrow>
                              (screener_pages env (screener_urls self)
                                 (log_to (Info (str ''Extracting Screener data dynamically...''))
                                    st),
                               None))))))"

definition generate_vectorstore ::
  "'vs collaborators \<Rightarrow> fin_vec_store \<Rightarrow> run_state \<times> (error + 'vs option)"
where
  "generate_vectorstore env self =
     (case load_sources env self of
        (st, Some e) \<Rightarrow> (st, Inl e)
      | (st, None) \<Rightarrow> build_index env st)"

section \<open>The states of a run\<close>

text \<open>
  \<open>later env st st'\<close>: while the sources are loaded, the state \<open>st'\<close> can follow the
  state \<open>st\<close>.  The two accumulators change only in the loop over the chunks; the rest
  writes to the log.
\<close>

inductive later :: "'vs collaborators \<Rightarrow> run_state \<Rightarrow> run_state \<Rightarrow> bool" for env where
  later_same: "later env st st"
| later_chunks:
    "later env st st' \<Longrightarrow> dedup_chunks env source_type chunks st' = (st'', r) \<Longrightarrow> later env st st''"
| later_other:
    "later env st st' \<Longrightarrow> seen_hashes st'' = seen_hashes st' \<Longrightarrow> all_chunks st'' = all_chunks st' \<Longrightarrow>
     index_calls st'' = index_calls st' \<Longrightarrow> later env st st''"

text \<open>The key of a chunk in the deduplication: the hash of its stripped content.\<close>

definition chunk_key :: "'vs collaborators \<Rightarrow> document \<Rightarrow> error + pystr" where
  "chunk_key env chunk = get_content_hash env (strip (page_content chunk))"


text \<open>The test of the filter on a chunk of the corpus.\<close>

definition rich :: "'vs collaborators \<Rightarrow> document \<Rightarrow> bool" where
  "rich env c \<longleftrightarrow>
     20 \<le> length (strip (page_content c)) \<and>
     (\<exists>ch\<in>set (strip (page_content c)). isalnum (unicode_isalnum env) ch)"

section \<open>Example collaborators\<close>

text \<open>
  Collaborators for concrete runs: the digest of a text is the text, a splitter gives the
  documents back, the loader of PDF files finds two pages in every file, the network is
  down, and the vector store is a unit.
\<close>

definition page_one :: document where
  "page_one = \<lparr>page_content = str ''Revenue grew 12 percent in 2023'', metadata = []\<rparr>"

definition page_two :: document where
  "page_two = \<lparr>page_content = str ''!!! --- !!!'', metadata = []\<rparr>"


definition whole_documents :: splitter where
  "whole_documents = DocumentSplitter (\<lambda>input. case input of Docs ds \<Rightarrow> Inr ds | Json d \<Rightarrow> Inr [])"

definition offline :: "unit collaborators" where
  "offline =
     \<lparr>md5_hexdigest = (\<lambda>bytes. bytes),
      unicode_isalnum = (\<lambda>c. False),
      unicode_names = (\<lambda>n. None),
      web_base_loader = (\<lambda>urls. ([], None)),
      pymupdf_loader = (\<lambda>path. Inr [page_one, page_two]),
      excel_loader = (\<lambda>path. Inl (LibraryError (str ''no such file''))),
      html_splitter = whole_documents,
      pdf_splitter = whole_documents,
      excel_splitter = whole_documents,
      screener_splitter = whole_documents,
      fetch_and_parse = (\<lambda>url. Inl (LibraryError (str ''connection refused''))),
      py_repr = (\<lambda>v. []),
      filter_complex_metadata = (\<lambda>docs. docs),
      chroma_from_documents = (\<lambda>docs. Inr ()),
      as_retriever = (\<lambda>vs. Inr (\<lambda>query. Inr []))\<rparr>"

definition one_pdf :: fin_vec_store where
  "one_pdf = \<lparr>web_urls = [], pdf_paths = [str ''a.pdf''], excel_paths = [], screener_urls = []\<rparr>"

definition one_screener_page :: fin_vec_store where
  "one_screener_page =
     \<lparr>web_urls = [], pdf_paths = [], excel_paths = [],
      screener_urls = [str ''https://www.screener.in/company/ABFRL/'']\<rparr>"

definition sheet_and_screener_page :: fin_vec_store where
  "sheet_and_screener_page =
     \<lparr>web_urls = [], pdf_paths = [], excel_paths = [str ''a.xlsx''],
      screener_urls = [str ''https://www.screener.in/company/ABFRL/'']\<rparr>"

text \<open>Pages.\<close>

abbreviation el :: "string \<Rightarrow> string list \<Rightarrow> (string \<times> string) list \<Rightarrow> node list \<Rightarrow> node" where
  "el n cs as ch \<equiv> Element (str n) (map str cs) (map (\<lambda>(k, v). (str k, str v)) as) ch"

definition year_table :: "string \<Rightarrow> node" where
  "year_table sales =
     el ''table'' [''data-table''] []
       [el ''tr'' [] [] [el ''th'' [] [] [Text (str ''Year'')], el ''th'' [] [] [Text (str ''Sales'')]],
        el ''tr'' [] [] [el ''td'' [] [] [Text (str ''2023'')], el ''td'' [] [] [Text (str sales)]],
        el ''tr'' [] [] [el ''td'' [] [] [Text (str ''2024'')]],
        el ''tr'' [] [] []]"

definition results_page :: node where
  "results_page =
     el ''[document]'' [] []
       [el ''h1'' [] [] [Text (str '' ACME Ltd '')],
        el ''h2'' [] [] [Text (str ''Quarterly Results'')],
        year_table ''100'']"

definition two_tables_page :: node where
  "two_tables_page =
     el ''[document]'' [] []
       [el ''h2'' [] [] [Text (str ''Balance Sheet'')],
        year_table ''100'',
        year_table ''200'']"

definition concall_button :: node where
  "concall_button =
     el ''button'' [''concall-link''] [(''data-url'', ''/concall/123'')] [Text (str ''Notes'')]"

definition concall_item :: node where
  "concall_item = el ''li'' [] [] [el ''div'' [] [] [Text (str ''Jan 2024'')], concall_button]"

definition concalls_page :: node where
  "concalls_page =
     el ''[document]'' [] []
       [el ''div'' [''documents'', ''concalls''] []
          [el ''ul'' [''list-links''] [] [concall_item]]]"

definition plain_page :: node where
  "plain_page = el ''[document]'' [] [] [el ''p'' [] [] [Text (str ''Page not found'')]]"

definition report_page :: node where
  "report_page =
     el ''[document]'' [] []
       [el ''div'' [''documents'', ''annual-reports''] []
          [el ''ul'' [''list-links''] []
             [el ''li'' [] [] [el ''a'' [] [(''href'', ''/r.pdf'')] [el ''span'' [] [] [Text (str ''2023'')]]]]]]"

section \<open>Sections that become documents\<close>

text \<open>\<open>isinstance(content, str)\<close>, \<open>list\<close> or \<open>dict\<close>.\<close>

definition is_str_list_or_dict :: "jval \<Rightarrow> bool" where
  "is_str_list_or_dict content \<longleftrightarrow>
     (case content of
        JStr s \<Rightarrow> True
      | JList items \<Rightarrow> True
      | JDict d \<Rightarrow> True
      | JTags tags \<Rightarrow> True
      | _ \<Rightarrow> False)"

definition small_record :: pydict where
  "small_record =
     [(str ''company_name'', JStr (str ''ACME'')),
      (str ''rank'', JNum 3),
      (str ''listed'', JBool True),
      (str ''pros'', JList [JStr (str ''No debt'')])]"

section \<open>The key of a table\<close>

text \<open>
  \<open>table_name\<close> of the table at position \<open>i\<close>: the stripped text of the heading that
  \<open>find_previous\<close> finds, when there is one.  The later tables are the data tables after
  position \<open>i\<close>; the table at \<open>i\<close> is the last of its name when none of them has the
  same \<open>table_name\<close>.
\<close>

definition table_name :: "(node \<Rightarrow> bool) \<Rightarrow> tag list \<Rightarrow> nat \<Rightarrow> pystr option" where
  "table_name heading page i =
     map_option (\<lambda>header. strip (text_of header)) (find_previous page i heading)"

definition later_tables :: "tag list \<Rightarrow> nat \<Rightarrow> nat list" where
  "later_tables page i =
     filter (\<lambda>j. is_data_table (node (page ! j))) [Suc i..<length page]"

definition is_last_of_its_name :: "(node \<Rightarrow> bool) \<Rightarrow> tag list \<Rightarrow> nat \<Rightarrow> bool" where
  "is_last_of_its_name heading page i \<longleftrightarrow>
     (\<forall>j\<in>set (later_tables page i). table_name heading page j \<noteq> table_name heading page i)"

text \<open>The rows of a table that have a \<open>td\<close> cell, the first \<open>tr\<close> apart.\<close>

definition header_texts :: "node \<Rightarrow> pystr list" where
  "header_texts table = map (\<lambda>th. strip (text_of th)) (find_all table (named (str ''th'')))"

definition data_rows :: "node \<Rightarrow> node list" where
  "data_rows table =
     filter (\<lambda>tr. find_all tr (named (str ''td'')) \<noteq> []) (tl (find_all table (named (str ''tr''))))"

section \<open>Properties of the text normalizer\<close>

lemma sub_escaped_newlines_id: "92 \<notin> set s \<Longrightarrow> sub_escaped_newlines r s = s"
  by (induction r s rule: sub_escaped_newlines.induct) auto

lemma encode_utf8_ascii: "\<forall>c\<in>set s. c < 128 \<Longrightarrow> encode_utf8 s = Inr s"
  by (induction s) (auto simp: utf8_char_def)

lemma decode_plain:
  "c \<noteq> 92 \<Longrightarrow>
   decode_unicode_escape names (c # s) = map_sum id (Cons c) (decode_unicode_escape names s)"
  by (subst decode_unicode_escape.simps) (simp only: if_True simp_thms)

lemma decode_no_backslash: "92 \<notin> set s \<Longrightarrow> decode_unicode_escape names s = Inr s"
proof (induction s)
  case Nil
  show ?case by (simp only: decode_unicode_escape.simps)
next
  case (Cons c s)
  then have "c \<noteq> 92" and "decode_unicode_escape names s = Inr s" by auto
  then show ?case by (simp add: decode_plain)
qed

lemma sub_runs_none: "\<forall>c\<in>set s. \<not> C c \<Longrightarrow> sub_runs C r s = s"
  by (induction s) auto

lemma sub_runs_fixed:
  "\<forall>c\<in>set s. C c \<longrightarrow> c = r \<Longrightarrow> successively (\<lambda>a b. \<not> (C a \<and> C b)) s \<Longrightarrow> sub_runs C r s = s"
proof (induction s)
  case Nil
  then show ?case by simp
next
  case (Cons c cs)
  then have tl: "sub_runs C r cs = cs"
    by (auto simp: successively_Cons)
  show ?case
  proof (cases "C c")
    case True
    with Cons.prems have "cs = [] \<or> \<not> C (hd cs)"
      by (auto simp: successively_Cons)
    then have "dropWhile C cs = cs"
      by (cases cs) auto
    with True Cons.prems tl show ?thesis by simp
  next
    case False
    with tl show ?thesis by simp
  qed
qed

lemma set_sub_runs: "set (sub_runs C r s) \<subseteq> insert r (set s)"
proof (induction C r s rule: sub_runs.induct)
  case (1 C r)
  then show ?case by simp
next
  case (2 C r c cs)
  have "set (dropWhile C cs) \<subseteq> set cs"
    by (auto dest: set_dropWhileD)
  with 2 show ?case by auto
qed

lemma sub_runs_class: "C r \<Longrightarrow> c \<in> set (sub_runs C r s) \<Longrightarrow> C c \<Longrightarrow> c = r"
proof (induction C r s rule: sub_runs.induct)
  case (1 C r)
  then show ?case by simp
next
  case (2 C r c cs)
  then show ?case by (auto split: if_splits)
qed

lemma hd_sub_runs: "s \<noteq> [] \<Longrightarrow> \<not> C (hd s) \<Longrightarrow> hd (sub_runs C r s) = hd s"
  by (cases s) auto

lemma sub_runs_Nil_iff: "sub_runs C r s = [] \<longleftrightarrow> s = []"
  by (cases s) auto

lemma successively_sub_runs: "successively (\<lambda>a b. \<not> (C a \<and> C b)) (sub_runs C r s)"
proof (induction C r s rule: sub_runs.induct)
  case (1 C r)
  then show ?case by simp
next
  case (2 C r c cs)
  show ?case
  proof (cases "C c")
    case True
    have "sub_runs C r (dropWhile C cs) = [] \<or> \<not> C (hd (sub_runs C r (dropWhile C cs)))"
    proof (cases "dropWhile C cs = []")
      case True
      then show ?thesis by (simp only: sub_runs.simps) simp
    next
      case False
      then have "\<not> C (hd (dropWhile C cs))"
        by (rule hd_dropWhile)
      with False show ?thesis by (simp add: hd_sub_runs)
    qed
    with True 2 show ?thesis by (simp add: successively_Cons)
  next
    case False
    with 2 show ?thesis by (auto simp: successively_Cons)
  qed
qed


lemma spaced_append: "spaced (xs @ ys) \<Longrightarrow> spaced xs \<and> spaced ys"
  by (auto simp: spaced_def successively_append_iff)

lemma spaced_takeWhile: "spaced s \<Longrightarrow> spaced (takeWhile p s)"
  using spaced_append [of "takeWhile p s" "dropWhile p s"] by simp

lemma spaced_dropWhile: "spaced s \<Longrightarrow> spaced (dropWhile p s)"
  using spaced_append [of "takeWhile p s" "dropWhile p s"] by simp

lemma spaced_tl: "spaced s \<Longrightarrow> spaced (tl s)"
  using spaced_append [of "[hd s]" "tl s"] by (cases s) auto

lemma spaced_rev: "spaced (rev s) = spaced s"
  by (auto simp: spaced_def elim!: successively_mono)

lemma spaced_strip: "spaced s \<Longrightarrow> spaced (strip s)"
  by (simp add: strip_def spaced_rev spaced_dropWhile)

lemma splitlines_Nil: "splitlines [] = []"
  by (subst splitlines.simps) simp

lemma splitlines_lines:
  "spaced s \<Longrightarrow> l \<in> set (splitlines s) \<Longrightarrow> spaced l \<and> (\<forall>c\<in>set l. \<not> is_linebreak c)"
proof (induction s rule: splitlines.induct)
  case (1 s)
  show ?case
  proof (cases "s = []")
    case True
    with 1 show ?thesis by (simp add: splitlines_Nil)
  next
    case False
    let ?rest = "dropWhile (\<lambda>c. \<not> is_linebreak c) s"
    have "splitlines s = takeWhile (\<lambda>c. \<not> is_linebreak c) s #
        (case ?rest of [] \<Rightarrow> []
         | b # r \<Rightarrow> splitlines (if b = 13 \<and> take 1 r = [10] then tl r else r))"
      using False by (subst splitlines.simps) simp
    with "1.prems"
    consider "l = takeWhile (\<lambda>c. \<not> is_linebreak c) s"
      | b r where "?rest = b # r" "l \<in> set (splitlines (if b = 13 \<and> take 1 r = [10] then tl r else r))"
      by (cases ?rest) auto
    then show ?thesis
    proof cases
      case 1
      with "1.prems" show ?thesis
        by (auto simp: spaced_takeWhile dest: set_takeWhileD)
    next
      case 2
      from "1.prems" have "spaced ?rest" by (simp add: spaced_dropWhile)
      with 2 have "spaced r" using spaced_tl [of ?rest] by simp
      then have "spaced (if b = 13 \<and> take 1 r = [10] then tl r else r)"
        by (simp add: spaced_tl)
      with "1.IH" [OF False 2(1)] 2(2) show ?thesis by blast
    qed
  qed
qed

lemma splitlines_single:
  "s \<noteq> [] \<Longrightarrow> \<forall>c\<in>set s. \<not> is_linebreak c \<Longrightarrow> splitlines s = [s]"
proof -
  assume a: "s \<noteq> []" "\<forall>c\<in>set s. \<not> is_linebreak c"
  then have "takeWhile (\<lambda>c. \<not> is_linebreak c) s = s" "dropWhile (\<lambda>c. \<not> is_linebreak c) s = []"
    by simp_all
  with a(1) show ?thesis
    by (subst splitlines.simps) (simp del: dropWhile_eq_Nil_conv takeWhile_eq_all_conv)
qed

lemma strip_fixed: "s \<noteq> [] \<Longrightarrow> \<not> isspace (hd s) \<Longrightarrow> \<not> isspace (last s) \<Longrightarrow> strip s = s"
proof -
  assume a: "s \<noteq> []" "\<not> isspace (hd s)" "\<not> isspace (last s)"
  then have "dropWhile isspace s = s" by (cases s) auto
  moreover from a have "dropWhile isspace (rev s) = rev s"
    by (cases "rev s") (auto simp: last_rev [symmetric] simp del: last_rev)
  ultimately show ?thesis by (simp add: strip_def)
qed

lemma strip_ends:
  "strip s \<noteq> [] \<Longrightarrow> \<not> isspace (hd (strip s)) \<and> \<not> isspace (last (strip s))"
proof -
  assume ne: "strip s \<noteq> []"
  let ?t = "dropWhile isspace (rev (dropWhile isspace s))"
  from ne have t: "?t \<noteq> []" by (simp add: strip_def)
  then have "\<not> isspace (hd ?t)" by (rule hd_dropWhile)
  with t have l: "\<not> isspace (last (strip s))" by (simp add: strip_def last_rev)
  have d: "dropWhile isspace s \<noteq> []"
  proof
    assume "dropWhile isspace s = []"
    then have "?t = []" by (simp only: rev.simps dropWhile.simps)
    with t show False by contradiction
  qed
  then have h: "\<not> isspace (hd (dropWhile isspace s))" by (rule hd_dropWhile)
  have "rev (dropWhile isspace s) = takeWhile isspace (rev (dropWhile isspace s)) @ ?t"
    by simp
  then have "dropWhile isspace s = rev ?t @ rev (takeWhile isspace (rev (dropWhile isspace s)))"
    by (metis rev_append rev_rev_ident)
  with t have "hd (dropWhile isspace s) = hd (rev ?t)"
    by (metis hd_append2 rev_is_Nil_conv)
  with h have "\<not> isspace (hd (strip s))" by (simp add: strip_def)
  with l show ?thesis by simp
qed

lemma set_strip: "set (strip s) \<subseteq> set s"
  unfolding strip_def by (metis set_dropWhileD set_rev subsetI)

lemma tidy_fixed: "tidy s \<Longrightarrow> collapse_whitespace s = s"
proof -
  assume t: "tidy s"
  then have sp: "spaced s" and nb: "\<forall>c\<in>set s. \<not> is_linebreak c"
    by (simp_all add: tidy_def)
  have "is_linebreak 10" by (simp add: is_linebreak_def)
  with nb have "\<forall>c\<in>set s. \<not> c = 10" by blast
  then have 1: "sub_runs (\<lambda>c. c = 10) 10 s = s"
    by (rule sub_runs_none)
  from sp have cls: "\<forall>c\<in>set s. (c = 32 \<or> c = 9) \<longrightarrow> c = 32"
    by (simp add: spaced_def)
  from sp have "successively (\<lambda>a b. \<not> (a = 32 \<and> b = 32)) s"
    by (simp add: spaced_def)
  then have "successively (\<lambda>a b. \<not> ((a = 32 \<or> a = 9) \<and> (b = 32 \<or> b = 9))) s"
  proof (rule successively_mono)
    fix a b
    assume "a \<in> set s" "b \<in> set s" "\<not> (a = 32 \<and> b = 32)"
    with sp show "\<not> ((a = 32 \<or> a = 9) \<and> (b = 32 \<or> b = 9))"
      by (auto simp: spaced_def)
  qed
  with cls have 2: "sub_runs (\<lambda>c. c = 32 \<or> c = 9) 32 s = s"
    by (rule sub_runs_fixed)
  have 3: "map (\<lambda>c. if c = 160 then 32 else c) s = s"
  proof (rule map_idI)
    fix x
    assume "x \<in> set s"
    with sp have "x \<noteq> 160" by (auto simp: spaced_def)
    then show "(if x = 160 then 32 else x) = x" by simp
  qed
  show ?thesis
  proof (cases "s = []")
    case True
    then show ?thesis by (simp add: collapse_whitespace_def splitlines_Nil)
  next
    case False
    from False nb have 4: "splitlines s = [s]"
      by (rule splitlines_single)
    from t False have "\<not> isspace (hd s)" "\<not> isspace (last s)"
      by (simp_all add: tidy_def)
    with False have 5: "strip s = s"
      by (rule strip_fixed)
    from 1 2 3 4 5 False show ?thesis by (simp add: collapse_whitespace_def)
  qed
qed

lemma tidy_strip_line:
  assumes "spaced l" "\<forall>c\<in>set l. \<not> is_linebreak c" "strip l \<noteq> []"
  shows "tidy (strip l)"
  using assms set_strip [of l] strip_ends [of l] by (auto simp: tidy_def spaced_strip)

lemma tidy_join:
  "\<forall>l\<in>set ls. tidy l \<and> l \<noteq> [] \<Longrightarrow> tidy (join [32] ls) \<and> (ls \<noteq> [] \<longrightarrow> join [32] ls \<noteq> [])"
proof (induction "[32::nat]" ls rule: join.induct)
  case 1
  show ?case by (simp add: tidy_def spaced_def)
next
  case (2 x)
  then show ?case by simp
next
  case (3 x y ys)
  let ?j = "join [32] (y # ys)"
  from 3 have j: "tidy ?j" "?j \<noteq> []" and x: "tidy x" "x \<noteq> []" by simp_all
  have sp: "isspace 32" "\<not> is_linebreak 32" by (simp_all add: isspace_def is_linebreak_def)
  from j x sp have ends: "hd ?j \<noteq> 32" "last x \<noteq> 32"
    by (auto simp: tidy_def)
  with j x have "spaced (x @ [32] @ ?j)"
    by (auto simp: tidy_def spaced_def successively_append_iff successively_Cons)
  moreover from j x sp have "\<forall>c\<in>set (x @ [32] @ ?j). \<not> is_linebreak c"
    by (auto simp: tidy_def)
  moreover from j x have "\<not> isspace (hd (x @ [32] @ ?j))" "\<not> isspace (last (x @ [32] @ ?j))"
    by (auto simp: tidy_def)
  ultimately show ?case by (simp add: tidy_def)
qed

lemma tidy_collapse_whitespace: "160 \<notin> set s \<Longrightarrow> tidy (collapse_whitespace s)"
proof -
  assume a: "160 \<notin> set s"
  let ?t1 = "sub_runs (\<lambda>c. c = 10) 10 s"
  let ?t2 = "sub_runs (\<lambda>c. c = 32 \<or> c = 9) 32 ?t1"
  have s2: "set ?t2 \<subseteq> insert 32 (insert 10 (set s))"
    using set_sub_runs [of "\<lambda>c. c = 32 \<or> c = 9" 32 ?t1] set_sub_runs [of "\<lambda>c. c = 10" 10 s]
    by auto
  with a have n160: "160 \<notin> set ?t2" by auto
  then have 3: "map (\<lambda>c. if c = 160 then 32 else c) ?t2 = ?t2"
    by (intro map_idI) auto
  have "c \<in> set ?t2 \<Longrightarrow> c \<noteq> 9" for c
    using sub_runs_class [of "\<lambda>c. c = 32 \<or> c = 9" 32 c ?t1] by auto
  moreover have "successively (\<lambda>a b. \<not> (a = 32 \<and> b = 32)) ?t2"
    using successively_sub_runs [of "\<lambda>c. c = 32 \<or> c = 9" 32 ?t1]
    by (rule successively_mono) auto
  ultimately have sp: "spaced ?t2" using n160 by (auto simp: spaced_def)
  let ?ls = "filter (\<lambda>line. line \<noteq> []) (map strip (splitlines ?t2))"
  have "tidy l \<and> l \<noteq> []" if "l \<in> set ?ls" for l
  proof -
    from that obtain k where k: "k \<in> set (splitlines ?t2)" "l = strip k" "strip k \<noteq> []"
      by auto
    from splitlines_lines [OF sp k(1)] have "spaced k" "\<forall>c\<in>set k. \<not> is_linebreak c"
      by simp_all
    then have "tidy (strip k)" using k(3) by (rule tidy_strip_line)
    with k show ?thesis by simp
  qed
  then have "\<forall>l\<in>set ?ls. tidy l \<and> l \<noteq> []" by blast
  then have "tidy (join [32] ?ls)"
    using tidy_join by blast
  moreover have "collapse_whitespace s = join [32] ?ls"
    using 3 by (simp add: collapse_whitespace_def)
  ultimately show ?thesis by simp
qed

lemma set_join: "set (join sep ls) \<subseteq> set sep \<union> \<Union> (set ` set ls)"
  by (induction sep ls rule: join.induct) auto

lemma set_splitlines: "l \<in> set (splitlines s) \<Longrightarrow> set l \<subseteq> set s"
proof (induction s rule: splitlines.induct)
  case (1 s)
  show ?case
  proof (cases "s = []")
    case True
    with 1 show ?thesis by (simp add: splitlines_Nil)
  next
    case False
    let ?rest = "dropWhile (\<lambda>c. \<not> is_linebreak c) s"
    have "splitlines s = takeWhile (\<lambda>c. \<not> is_linebreak c) s #
        (case ?rest of [] \<Rightarrow> []
         | b # r \<Rightarrow> splitlines (if b = 13 \<and> take 1 r = [10] then tl r else r))"
      using False by (subst splitlines.simps) simp
    with "1.prems"
    consider "l = takeWhile (\<lambda>c. \<not> is_linebreak c) s"
      | b r where "?rest = b # r" "l \<in> set (splitlines (if b = 13 \<and> take 1 r = [10] then tl r else r))"
      by (cases ?rest) auto
    then show ?thesis
    proof cases
      case 1
      then show ?thesis by (auto dest: set_takeWhileD)
    next
      case 2
      have "set r \<subseteq> set s"
        using set_dropWhileD [of _ "\<lambda>c. \<not> is_linebreak c" s] 2(1) by auto
      moreover have "set (tl r) \<subseteq> set r" by (cases r) auto
      ultimately have "set (if b = 13 \<and> take 1 r = [10] then tl r else r) \<subseteq> set s" by auto
      with "1.IH" [OF False 2(1) 2(2)] show ?thesis by blast
    qed
  qed
qed

lemma set_collapse_whitespace: "set (collapse_whitespace s) \<subseteq> insert 32 (insert 10 (set s))"
proof -
  let ?t1 = "sub_runs (\<lambda>c. c = 10) 10 s"
  let ?t2 = "sub_runs (\<lambda>c. c = 32 \<or> c = 9) 32 ?t1"
  let ?t3 = "map (\<lambda>c. if c = 160 then 32 else c) ?t2"
  have "set ?t2 \<subseteq> insert 32 (insert 10 (set s))"
    using set_sub_runs [of "\<lambda>c. c = 32 \<or> c = 9" 32 ?t1] set_sub_runs [of "\<lambda>c. c = 10" 10 s]
    by auto
  then have t3: "set ?t3 \<subseteq> insert 32 (insert 10 (set s))" by auto
  let ?ls = "filter (\<lambda>line. line \<noteq> []) (map strip (splitlines ?t3))"
  have "set l \<subseteq> set ?t3" if "l \<in> set ?ls" for l
  proof -
    from that obtain k where k: "k \<in> set (splitlines ?t3)" "l = strip k" by auto
    from k(1) have "set k \<subseteq> set ?t3" by (rule set_splitlines)
    with k(2) set_strip [of k] show ?thesis by blast
  qed
  with t3 have "\<Union> (set ` set ?ls) \<subseteq> insert 32 (insert 10 (set s))"
    by blast
  with set_join [of "[32]" ?ls] have "set (join [32] ?ls) \<subseteq> insert 32 (insert 10 (set s))"
    by auto
  moreover have "collapse_whitespace s = join [32] ?ls"
    by (simp add: collapse_whitespace_def)
  ultimately show ?thesis by simp
qed

lemma splitlines_Cons:
  "splitlines (c # cs) =
     takeWhile (\<lambda>c. \<not> is_linebreak c) (c # cs) #
        (case dropWhile (\<lambda>c. \<not> is_linebreak c) (c # cs) of
           [] \<Rightarrow> []
         | b # r \<Rightarrow> splitlines (if b = 13 \<and> take 1 r = [10] then tl r else r))"
  by (subst splitlines.simps) simp

text \<open>The equations that evaluate the normalizer on a concrete text.\<close>

lemmas eval_text = clean_content_def collapse_whitespace_def decode_unicode_escape.simps
  splitlines_Cons splitlines_Nil strip_def is_linebreak_def isspace_def utf8_char_def
  simple_escape_def is_octal_def octal_escape_def hex_digit_def

lemma encode_utf8_no_backslash:
  "\<forall>c\<in>set s. c \<noteq> 92 \<and> is_scalar_value c \<Longrightarrow> \<exists>b. encode_utf8 s = Inr b \<and> 92 \<notin> set b"
proof (induction s)
  case Nil
  show ?case by simp
next
  case (Cons c s)
  then obtain b where b: "encode_utf8 s = Inr b" "92 \<notin> set b" by auto
  from Cons.prems have c: "c \<noteq> 92" "is_scalar_value c" by simp_all
  then have "\<exists>bs. utf8_char c = Inr bs \<and> 92 \<notin> set bs"
    by (auto simp: utf8_char_def is_scalar_value_def)
  then obtain bs where "utf8_char c = Inr bs" "92 \<notin> set bs" by blast
  with b show ?case by simp
qed

lemma clean_content_plain:
  assumes "\<forall>c\<in>set x. c < 128 \<and> c \<noteq> 92"
  shows "clean_content names x = Inr (collapse_whitespace x)"
proof -
  from assms have nb: "92 \<notin> set x" and ascii: "\<forall>c\<in>set x. c < 128" by auto
  from nb have "sub_escaped_newlines False x = x" by (rule sub_escaped_newlines_id)
  moreover from ascii have "encode_utf8 x = Inr x" by (rule encode_utf8_ascii)
  moreover from nb have "decode_unicode_escape names x = Inr x" by (rule decode_no_backslash)
  ultimately show ?thesis by (simp add: clean_content_def)
qed

subsection \<open>Idempotence\<close>

text \<open>
  C1 (amended).  On a text of ASCII characters without a backslash the normalizer is
  idempotent: \<open>_clean_content\<close> returns a text \<open>y\<close>, and \<open>_clean_content\<close> of
  \<open>y\<close> is \<open>y\<close> again.  (A backslash is decoded once more by every pass, and a
  character above 127 is re-read as Latin-1 bytes by every pass.)
\<close>

theorem clean_content_idempotent_plain_ascii:
  assumes "\<forall>c\<in>set x. c < 128 \<and> c \<noteq> 92"
  shows "\<exists>y. clean_content names x = Inr y \<and> clean_content names y = Inr y"
proof -
  let ?y = "collapse_whitespace x"
  have 1: "clean_content names x = Inr ?y" using assms by (rule clean_content_plain)
  from assms have "160 \<notin> set x" by auto
  then have "tidy ?y" by (rule tidy_collapse_whitespace)
  then have fixed: "collapse_whitespace ?y = ?y" by (rule tidy_fixed)
  have "\<forall>c\<in>set ?y. c < 128 \<and> c \<noteq> 92"
    using set_collapse_whitespace [of x] assms by auto
  then have "clean_content names ?y = Inr (collapse_whitespace ?y)" by (rule clean_content_plain)
  with 1 fixed show ?thesis by simp
qed

text \<open>The amended C1 at the text \<open>"a \n\tb"\<close>, which normalizes to \<open>"a b"\<close>.\<close>

theorem clean_content_idempotent_plain_ascii_witness:
  "clean_content Map.empty [97, 32, 10, 9, 98] = Inr [97, 32, 98] \<and>
   clean_content Map.empty [97, 32, 98] = Inr [97, 32, 98]"
proof -
  have h: "\<forall>c\<in>set [97, 32, 10, 9, 98]. c < 128 \<and> c \<noteq> (92::nat)" by simp
  have "clean_content Map.empty [97, 32, 10, 9, 98] = Inr [97, 32, 98]"
    by (simp add: eval_text)
  with clean_content_idempotent_plain_ascii [OF h, of Map.empty] show ?thesis by auto
qed

text \<open>
  C1 as stated fails.  The three characters backslash, backslash, \<open>t\<close> normalize to
  the two characters backslash, \<open>t\<close>, and these normalize to the empty text: the second
  pass decodes the escape to a tab, which is then stripped.
\<close>

theorem clean_content_not_idempotent:
  "clean_content Map.empty [92, 92, 116] = Inr [92, 116] \<and>
   clean_content Map.empty [92, 116] = Inr []"
  by (simp add: eval_text)

subsection \<open>Exceptions\<close>

text \<open>
  C2 (amended).  \<open>_clean_content\<close> returns normally on every text that has no backslash
  and no surrogate code point; and when the escape decoding of step 2 fails, the
  \<open>UnicodeDecodeError\<close> is the result of \<open>_clean_content\<close>: there is no fallback to
  the text before decoding.
\<close>

theorem clean_content_raises_only_on_bad_escape:
  "((\<forall>c\<in>set x. c \<noteq> 92 \<and> is_scalar_value c) \<longrightarrow> (\<exists>y. clean_content names x = Inr y)) \<and>
   (\<forall>b e. encode_utf8 (sub_escaped_newlines False x) = Inr b \<and>
          decode_unicode_escape names b = Inl e \<longrightarrow> clean_content names x = Inl e)"
proof (intro conjI impI allI)
  assume a: "\<forall>c\<in>set x. c \<noteq> 92 \<and> is_scalar_value c"
  then have "92 \<notin> set x" by auto
  then have 1: "sub_escaped_newlines False x = x" by (rule sub_escaped_newlines_id)
  from a obtain b where b: "encode_utf8 x = Inr b" "92 \<notin> set b"
    using encode_utf8_no_backslash by blast
  from b(2) have "decode_unicode_escape names b = Inr b" by (rule decode_no_backslash)
  with 1 b(1) show "\<exists>y. clean_content names x = Inr y" by (simp add: clean_content_def)
next
  fix b e
  assume "encode_utf8 (sub_escaped_newlines False x) = Inr b \<and> decode_unicode_escape names b = Inl e"
  then show "clean_content names x = Inl e" by (simp add: clean_content_def)
qed

text \<open>The amended C2 at the texts \<open>"caf" + chr(233)\<close> (no backslash) and \<open>"C:\"\<close> (a backslash
  at the end).\<close>

theorem clean_content_raises_only_on_bad_escape_witness:
  "(\<exists>y. clean_content Map.empty [99, 97, 102, 233] = Inr y) \<and>
   clean_content Map.empty [67, 58, 92] = Inl UnicodeDecodeError"
proof -
  have 1: "\<forall>c\<in>set [99, 97, 102, 233]. c \<noteq> 92 \<and> is_scalar_value c"
    by (simp add: is_scalar_value_def)
  have 2: "encode_utf8 (sub_escaped_newlines False [67, 58, 92]) = Inr [67, 58, 92] \<and>
      decode_unicode_escape Map.empty [67, 58, 92] = Inl UnicodeDecodeError"
    by (simp add: eval_text)
  from 1 2 clean_content_raises_only_on_bad_escape [of "[99, 97, 102, 233]" Map.empty]
    clean_content_raises_only_on_bad_escape [of "[67, 58, 92]" Map.empty]
  show ?thesis by blast
qed

text \<open>C2 as stated fails: the text \<open>"C:\"\<close> makes \<open>_clean_content\<close> raise.\<close>

theorem clean_content_raises:
  "clean_content Map.empty [67, 58, 92] = Inl UnicodeDecodeError"
  by (simp add: eval_text)

section \<open>Properties of the corpus\<close>

lemma rich_iff: "rich env c \<longleftrightarrow> \<not> too_poor env (strip (page_content c))"
  by (auto simp: rich_def too_poor_def list_ex_iff)

lemma dedup_chunks_step:
  "dedup_chunks env t [c] st =
     (if too_poor env (strip (page_content c)) then (st, None)
      else case chunk_key env c of
             Inl e \<Rightarrow> (st, Some e)
           | Inr h \<Rightarrow>
               if h \<in> seen_hashes st then (st, None)
               else (st\<lparr>all_chunks := all_chunks st @
                           [c\<lparr>metadata := AList.update (str ''source_type'') (JStr t) (metadata c)\<rparr>],
                         seen_hashes := insert h (seen_hashes st)\<rparr>, None))"
  by (simp add: chunk_key_def already_exists_def Let_def split: sum.split)

lemma dedup_chunks_Cons:
  "dedup_chunks env t (c # cs) st =
     (case dedup_chunks env t [c] st of
        (st', None) \<Rightarrow> dedup_chunks env t cs st'
      | (st', Some e) \<Rightarrow> (st', Some e))"
  by (simp add: Let_def split: sum.split)

declare dedup_chunks.simps(2) [simp del]

lemma chunk_key_tagged [simp]: "chunk_key env (c\<lparr>metadata := m\<rparr>) = chunk_key env c"
  by (simp add: chunk_key_def)

lemma rich_tagged [simp]: "rich env (c\<lparr>metadata := m\<rparr>) = rich env c"
  by (simp add: rich_def)

text \<open>One chunk.\<close>

lemma step_grows:
  "dedup_chunks env t [c] st = (st', r) \<Longrightarrow>
   (\<exists>new. all_chunks st' = all_chunks st @ new) \<and> seen_hashes st \<subseteq> seen_hashes st' \<and>
   log st' = log st \<and> index_calls st' = index_calls st"
  by (auto simp: dedup_chunks_step split: if_splits sum.splits)

lemma step_rich:
  "dedup_chunks env t [c] st = (st', r) \<Longrightarrow> \<forall>x\<in>set (all_chunks st). rich env x \<Longrightarrow>
   \<forall>x\<in>set (all_chunks st'). rich env x"
  by (auto simp: dedup_chunks_step rich_iff [of env c] split: if_splits sum.splits)


text \<open>The loop.\<close>

lemma dedup_chunks_inv:
  assumes step: "\<And>c st st' r. P st \<Longrightarrow> dedup_chunks env t [c] st = (st', r) \<Longrightarrow> P st'"
    and "P st" and "dedup_chunks env t cs st = (st', r)"
  shows "P st'"
  using assms(2,3)
proof (induction cs arbitrary: st)
  case Nil
  then show ?case by simp
next
  case (Cons c cs)
  obtain st1 r1 where 1: "dedup_chunks env t [c] st = (st1, r1)" by fastforce
  with Cons.prems(1) have p1: "P st1" by (rule step)
  show ?case
  proof (cases r1)
    case None
    with 1 Cons.prems(2) have "dedup_chunks env t cs st1 = (st', r)"
      by (simp add: dedup_chunks_Cons [of env t c cs])
    with p1 show ?thesis by (rule Cons.IH)
  next
    case (Some e)
    with 1 Cons.prems(2) have "st' = st1"
      by (simp add: dedup_chunks_Cons [of env t c cs])
    with p1 show ?thesis by simp
  qed
qed

lemma later_trans: "later env b c \<Longrightarrow> later env a b \<Longrightarrow> later env a c"
  by (induction rule: later.induct) (auto intro: later.intros)

lemma later_log: "later env st (log_to ev st)"
  by (rule later_other [OF later_same]) (simp_all add: log_to_def)

lemma later_split:
  "split_and_dedup_docs env inp sp st t = (st', r) \<Longrightarrow> later env st st'"
  by (auto simp: split_and_dedup_docs_def split: splitter.splits sum.splits
      intro: later.intros)

lemma later_inv:
  assumes step: "\<And>t c st st' r. P st \<Longrightarrow> dedup_chunks env t [c] st = (st', r) \<Longrightarrow> P st'"
    and other: "\<And>st st'. P st \<Longrightarrow> seen_hashes st' = seen_hashes st \<Longrightarrow>
                  all_chunks st' = all_chunks st \<Longrightarrow> index_calls st' = index_calls st \<Longrightarrow> P st'"
    and "later env st st'" and "P st"
  shows "P st'"
  using assms(3,4)
proof (induction rule: later.induct)
  case (later_same st)
  then show ?case by simp
next
  case (later_chunks st st' source_type chunks st'' r)
  then have "P st'" by simp
  with step have "P st''"
    using later_chunks.hyps(2) by (rule dedup_chunks_inv [where P = P])
  then show ?case .
next
  case (later_other st st' st'')
  then show ?case using other by blast
qed

lemma later_rich:
  "later env st st' \<Longrightarrow> \<forall>x\<in>set (all_chunks st). rich env x \<Longrightarrow> \<forall>x\<in>set (all_chunks st'). rich env x"
  by (rule later_inv [where P = "\<lambda>s. \<forall>x\<in>set (all_chunks s). rich env x"])
     (auto dest: step_rich)


lemma later_grows:
  assumes "later env st st'"
  shows "(\<exists>new. all_chunks st' = all_chunks st @ new) \<and> seen_hashes st \<subseteq> seen_hashes st' \<and>
         index_calls st' = index_calls st"
proof -
  let ?P = "\<lambda>s. (\<exists>new. all_chunks s = all_chunks st @ new) \<and> seen_hashes st \<subseteq> seen_hashes s \<and>
    index_calls s = index_calls st"
  have step: "?P s'" if "?P s" "dedup_chunks env t [c] s = (s', r)" for t c s s' r
    using step_grows [OF that(2)] that(1) by auto
  have other: "?P s'" if "?P s" "seen_hashes s' = seen_hashes s" "all_chunks s' = all_chunks s"
    "index_calls s' = index_calls s" for s s'
    using that by simp
  have "?P st" by simp
  with step other assms show ?thesis
    by (rule later_inv [where P = ?P and env = env])
qed

section \<open>The states of a run of the orchestrator\<close>

lemma later_web_pages: "web_pages env docs st = (st', r) \<Longrightarrow> later env st st'"
proof (induction docs arbitrary: st)
  case Nil
  then show ?case by (simp add: later_same)
next
  case (Cons doc docs)
  show ?case
  proof (cases "clean_content (unicode_names env) (page_content doc)")
    case (Inl e)
    with Cons.prems show ?thesis by (simp add: later_same)
  next
    case (Inr cleaned)
    obtain st1 r1 where 1: "split_and_dedup_docs env (Docs [doc\<lparr>page_content := cleaned\<rparr>])
        (html_splitter env) st (str ''web'') = (st1, r1)" by fastforce
    then have l1: "later env st st1" by (rule later_split)
    show ?thesis
    proof (cases r1)
      case None
      with Inr 1 Cons.prems have "web_pages env docs st1 = (st', r)" by simp
      then have "later env st1 st'" by (rule Cons.IH)
      then show ?thesis using l1 by (rule later_trans)
    next
      case (Some e)
      with Inr 1 Cons.prems have "st' = st1" by simp
      with l1 show ?thesis by simp
    qed
  qed
qed

lemma later_pdf_files: "pdf_files env paths st = (st', r) \<Longrightarrow> later env st st'"
proof (induction paths arbitrary: st)
  case Nil
  then show ?case by (simp add: later_same)
next
  case (Cons path paths)
  show ?case
  proof (cases "pymupdf_loader env path")
    case (Inl e)
    with Cons.prems show ?thesis by (simp add: later_same)
  next
    case loaded: (Inr pdf_docs)
    show ?thesis
    proof (cases "clean_docs env pdf_docs")
      case (Inl e)
      with loaded Cons.prems show ?thesis by (simp add: later_same)
    next
      case (Inr docs)
      obtain st1 r1 where 1: "split_and_dedup_docs env (Docs docs) (pdf_splitter env) st
          (str ''pdf'') = (st1, r1)" by fastforce
      then have l1: "later env st st1" by (rule later_split)
      show ?thesis
      proof (cases r1)
        case None
        with loaded Inr 1 Cons.prems have "pdf_files env paths st1 = (st', r)" by simp
        then have "later env st1 st'" by (rule Cons.IH)
        then show ?thesis using l1 by (rule later_trans)
      next
        case (Some e)
        with loaded Inr 1 Cons.prems have "st' = st1" by simp
        with l1 show ?thesis by simp
      qed
    qed
  qed
qed

lemma later_excel_files: "excel_files env paths st = (st', r) \<Longrightarrow> later env st st'"
proof (induction paths arbitrary: st)
  case Nil
  then show ?case by (simp add: later_same)
next
  case (Cons path paths)
  show ?case
  proof (cases "excel_loader env path")
    case (Inl e)
    with Cons.prems show ?thesis by (simp add: later_same)
  next
    case (Inr docs)
    obtain st1 r1 where 1: "split_and_dedup_docs env (Docs docs) (excel_splitter env) st
        (str ''excel'') = (st1, r1)" by fastforce
    then have l1: "later env st st1" by (rule later_split)
    show ?thesis
    proof (cases r1)
      case None
      with Inr 1 Cons.prems have "excel_files env paths st1 = (st', r)" by simp
      then have "later env st1 st'" by (rule Cons.IH)
      then show ?thesis using l1 by (rule later_trans)
    next
      case (Some e)
      with Inr 1 Cons.prems have "st' = st1" by simp
      with l1 show ?thesis by simp
    qed
  qed
qed

lemma later_screener_source: "screener_source env url st = (st', r) \<Longrightarrow> later env st st'"
  by (auto simp: screener_source_def split: sum.splits intro: later_same later_split)

lemma later_screener_pages: "later env st (screener_pages env urls st)"
proof (induction urls arbitrary: st)
  case Nil
  show ?case by (simp add: later_same)
next
  case (Cons url urls)
  obtain st1 r1 where 1: "screener_source env url st = (st1, r1)" by fastforce
  then have l1: "later env st st1" by (rule later_screener_source)
  show ?case
  proof (cases r1)
    case None
    with 1 have "screener_pages env (url # urls) st = screener_pages env urls st1" by simp
    with Cons.IH [of st1] l1 show ?thesis by (simp add: later_trans)
  next
    case (Some e)
    with 1 have eq: "screener_pages env (url # urls) st =
        screener_pages env urls (log_to (WarningFailed url e) st1)" by simp
    have "later env st (log_to (WarningFailed url e) st1)"
      using later_log l1 by (rule later_trans)
    with Cons.IH [of "log_to (WarningFailed url e) st1"] eq show ?thesis
      by (simp add: later_trans)
  qed
qed

lemma log_vectorstore_metadata_chunks:
  "log_vectorstore_metadata env vs st = (st', r) \<Longrightarrow>
   seen_hashes st' = seen_hashes st \<and> all_chunks st' = all_chunks st \<and>
   index_calls st' = index_calls st"
  by (auto simp: log_vectorstore_metadata_def log_to_def Let_def split: sum.splits)

lemma log_to_chunks [simp]:
  "seen_hashes (log_to ev st) = seen_hashes st" "all_chunks (log_to ev st) = all_chunks st"
  "index_calls (log_to ev st) = index_calls st"
  by (simp_all add: log_to_def)

lemma build_index_chunks:
  assumes "build_index env st = (st', r)"
  shows "seen_hashes st' = seen_hashes st \<and> all_chunks st' = all_chunks st"
proof (cases "filter_complex_metadata env (all_chunks st) = []")
  case True
  with assms show ?thesis by (auto simp: build_index_def Let_def)
next
  case False
  let ?f = "filter_complex_metadata env (all_chunks st)"
  show ?thesis
  proof (cases "chroma_from_documents env ?f")
    case (Inl e)
    with False assms show ?thesis by (auto simp: build_index_def Let_def)
  next
    case (Inr vs)
    let ?s = "log_to (Info (str ''Vectorstore created successfully.''))
      ((log_to (Info (str ''Creating vectorstore with Chroma...''))
         (log_to (InfoCount (str ''Filtered chunks retained'') (length ?f))
           (log_to (InfoCount (str ''Total chunks before filtering'') (length (all_chunks st)))
             (log_to (InfoCount (str ''Total unique chunks prepared'') (length (all_chunks st))) st))))
        \<lparr>index_calls := index_calls st @ [?f]\<rparr>)"
    obtain s1 r1 where 1: "log_vectorstore_metadata env vs ?s = (s1, r1)" by fastforce
    from log_vectorstore_metadata_chunks [OF 1]
    have "seen_hashes s1 = seen_hashes st \<and> all_chunks s1 = all_chunks st" by simp
    moreover from False Inr 1 assms have "st' = s1"
      by (cases r1) (simp_all add: build_index_def Let_def)
    ultimately show ?thesis by simp
  qed
qed

lemma later_load_sources: "load_sources env self = (st', r) \<Longrightarrow> later env initial_state st'"
proof -
  assume a: "load_sources env self = (st', r)"
  let ?st0 = "log_to (Info (str ''Loading documents from web...'')) initial_state"
  have l0: "later env initial_state ?st0" by (rule later_log)
  obtain docs raised where w: "web_base_loader env (web_urls self) = (docs, raised)" by fastforce
  obtain st1 r1 where 1: "web_pages env docs ?st0 = (st1, r1)" by fastforce
  then have "later env ?st0 st1" by (rule later_web_pages)
  then have l1: "later env initial_state st1" using l0 by (rule later_trans)
  let ?st1 = "log_to (Info (str ''Loading PDF documents...'')) st1"
  obtain st2 r2 where 2: "pdf_files env (pdf_paths self) ?st1 = (st2, r2)" by fastforce
  then have "later env ?st1 st2" by (rule later_pdf_files)
  moreover have "later env initial_state ?st1" using later_log l1 by (rule later_trans)
  ultimately have l2: "later env initial_state st2" by (rule later_trans)
  let ?st2 = "log_to (Info (str ''Loading excel spreadsheets...'')) st2"
  obtain st3 r3 where 3: "excel_files env (excel_paths self) ?st2 = (st3, r3)" by fastforce
  then have "later env ?st2 st3" by (rule later_excel_files)
  moreover have "later env initial_state ?st2" using later_log l2 by (rule later_trans)
  ultimately have l3: "later env initial_state st3" by (rule later_trans)
  let ?st3 = "screener_pages env (screener_urls self)
      (log_to (Info (str ''Extracting Screener data dynamically...'')) st3)"
  have "later env initial_state (log_to (Info (str ''Extracting Screener data dynamically...'')) st3)"
    using later_log l3 by (rule later_trans)
  with later_screener_pages have l4: "later env initial_state ?st3" by (rule later_trans)
  from a w 1 2 3 l1 l2 l3 l4 show ?thesis
    by (auto simp: load_sources_def split: option.splits)
qed

lemma generate_vectorstore_chunks:
  "\<exists>st r. load_sources env self = (st, r) \<and>
     all_chunks (fst (generate_vectorstore env self)) = all_chunks st \<and>
     seen_hashes (fst (generate_vectorstore env self)) = seen_hashes st"
proof -
  obtain st1 r1 where 1: "load_sources env self = (st1, r1)" by fastforce
  obtain st2 r2 where 2: "build_index env st1 = (st2, r2)" by fastforce
  from build_index_chunks [OF 2] 1 2 show ?thesis
    by (cases r1) (simp_all add: generate_vectorstore_def)
qed

section \<open>An example run\<close>

lemma page_one_clean:
  "clean_content (\<lambda>n. None) (str ''Revenue grew 12 percent in 2023'') =
     Inr (str ''Revenue grew 12 percent in 2023'')"
  by (simp add: str_def eval_text)

lemma page_two_clean:
  "clean_content (\<lambda>n. None) (str ''!!! --- !!!'') = Inr (str ''!!! --- !!!'')"
  by (simp add: str_def eval_text)

lemma offline_clean_docs: "clean_docs offline [page_one, page_two] = Inr [page_one, page_two]"
  by (simp add: offline_def page_one_def page_two_def page_one_clean page_two_clean)

lemma page_one_rich: "\<not> too_poor offline (strip (page_content page_one))"
  by (simp add: too_poor_def page_one_def offline_def str_def strip_def isspace_def isalnum_def)

lemma page_two_poor: "too_poor offline (strip (page_content page_two))"
  by (simp add: too_poor_def page_two_def offline_def str_def strip_def isspace_def isalnum_def)

lemma page_one_key:
  "chunk_key offline page_one = Inr (str ''Revenue grew 12 percent in 2023'')"
  by (simp add: chunk_key_def get_content_hash_def page_one_def offline_def str_def strip_def
      isspace_def utf8_char_def)

lemma offline_simps:
  "web_base_loader offline urls = ([], None)"
  "pymupdf_loader offline path = Inr [page_one, page_two]"
  "pdf_splitter offline = whole_documents"
  "filter_complex_metadata offline docs = docs"
  "chroma_from_documents offline docs = Inr ()"
  "as_retriever offline vs = Inr (\<lambda>query. Inr [])"
  by (simp_all add: offline_def)

lemma offline_dedup:
  assumes "seen_hashes st = {}"
  shows "dedup_chunks offline t [page_one, page_two] st =
     (st\<lparr>all_chunks := all_chunks st @
            [page_one\<lparr>metadata := AList.update (str ''source_type'') (JStr t) (metadata page_one)\<rparr>],
          seen_hashes := insert (str ''Revenue grew 12 percent in 2023'') (seen_hashes st)\<rparr>,
      None)"
proof -
  have "dedup_chunks offline t [page_one] st =
     (st\<lparr>all_chunks := all_chunks st @
            [page_one\<lparr>metadata := AList.update (str ''source_type'') (JStr t) (metadata page_one)\<rparr>],
          seen_hashes := insert (str ''Revenue grew 12 percent in 2023'') (seen_hashes st)\<rparr>,
      None)"
    using assms by (simp add: dedup_chunks_step page_one_rich page_one_key)
  moreover have "dedup_chunks offline t [page_two] st' = (st', None)" for st'
    by (simp add: dedup_chunks_step page_two_poor)
  ultimately show ?thesis
    by (simp add: dedup_chunks_Cons [of offline t page_one "[page_two]"])
qed

lemma one_pdf_run:
  "all_chunks (fst (generate_vectorstore offline one_pdf)) =
     [page_one\<lparr>metadata := [(str ''source_type'', JStr (str ''pdf''))]\<rparr>]"
proof -
  let ?st1 = "log_to (Info (str ''Loading PDF documents...''))
    (log_to (Info (str ''Loading documents from web...'')) initial_state)"
  let ?kept = "page_one\<lparr>metadata :=
    AList.update (str ''source_type'') (JStr (str ''pdf'')) (metadata page_one)\<rparr>"
  have s: "seen_hashes ?st1 = {}" "all_chunks ?st1 = []" by (simp_all add: initial_state_def)
  have "\<exists>st2. pdf_files offline [str ''a.pdf''] ?st1 = (st2, None) \<and> all_chunks st2 = [?kept]"
    using s by (simp add: offline_simps offline_clean_docs split_and_dedup_docs_def
        whole_documents_def offline_dedup del: clean_docs.simps)
  then obtain st2 where 2: "pdf_files offline [str ''a.pdf''] ?st1 = (st2, None)"
    and c2: "all_chunks st2 = [?kept]" by blast
  obtain st3 r where 3: "build_index offline (log_to (Info (str ''Extracting Screener data dynamically...''))
      (log_to (Info (str ''Loading excel spreadsheets...'')) st2)) = (st3, r)" by fastforce
  from build_index_chunks [OF 3] c2 have "all_chunks st3 = [?kept]"
    by simp
  moreover have "?kept = page_one\<lparr>metadata := [(str ''source_type'', JStr (str ''pdf''))]\<rparr>"
    by (simp add: page_one_def)
  ultimately show ?thesis using 2 3
    by (simp add: generate_vectorstore_def load_sources_def one_pdf_def offline_simps)
qed

section \<open>The filter and the deduplication\<close>



text \<open>
  C4.  In the state that \<open>generate_vectorstore\<close> ends with (with a result or with an
  exception), every chunk of \<open>all_chunks\<close> has a stripped content of at least 20
  characters with an alphanumeric character among them: the loop never appends a chunk
  that fails the test.
\<close>

theorem corpus_chunks_pass_the_filter:
  "\<forall>c\<in>set (all_chunks (fst (generate_vectorstore env self))).
     20 \<le> length (strip (page_content c)) \<and>
     (\<exists>ch\<in>set (strip (page_content c)). isalnum (unicode_isalnum env) ch)"
proof -
  have "\<forall>x\<in>set (all_chunks initial_state). rich env x" by (simp add: initial_state_def)
  obtain st r where 1: "load_sources env self = (st, r)"
    and 2: "all_chunks (fst (generate_vectorstore env self)) = all_chunks st"
    using generate_vectorstore_chunks by blast
  from 1 have "later env initial_state st" by (rule later_load_sources)
  then have "\<forall>x\<in>set (all_chunks st). rich env x"
    using \<open>\<forall>x\<in>set (all_chunks initial_state). rich env x\<close> by (rule later_rich)
  with 2 show ?thesis by (simp add: rich_def)
qed

text \<open>C4 on the run over one PDF file with the two pages \<open>page_one\<close> and \<open>page_two\<close>:
  the first is kept, and \<open>"!!! --- !!!"\<close> is not.\<close>

theorem corpus_chunks_pass_the_filter_witness:
  "page_one\<lparr>metadata := [(str ''source_type'', JStr (str ''pdf''))]\<rparr>
     \<in> set (all_chunks (fst (generate_vectorstore offline one_pdf))) \<and>
   20 \<le> length (strip (page_content page_one)) \<and>
   (\<exists>ch\<in>set (strip (page_content page_one)). isalnum (unicode_isalnum offline) ch) \<and>
   page_content page_two \<notin> page_content ` set (all_chunks (fst (generate_vectorstore offline one_pdf)))"
proof -
  have "page_content page_two \<noteq> page_content page_one"
    by (simp add: page_one_def page_two_def str_def)
  with corpus_chunks_pass_the_filter [of offline one_pdf] show ?thesis
    by (simp add: one_pdf_run)
qed



section \<open>The end of the run\<close>

lemma load_sources_index_calls:
  assumes "load_sources env self = (st, r)"
  shows "index_calls st = []"
proof -
  from assms have "later env initial_state st" by (rule later_load_sources)
  from later_grows [OF this] show ?thesis by (simp add: initial_state_def)
qed

lemma build_index_empty:
  assumes "filter_complex_metadata env (all_chunks st) = []"
  shows "snd (build_index env st) = Inr None \<and> index_calls (fst (build_index env st)) = index_calls st"
  using assms by (simp add: build_index_def Let_def)

text \<open>
  C7.  When the loops over the sources have ended without an exception and
  \<open>filter_complex_metadata\<close> leaves no chunk, \<open>generate_vectorstore\<close> returns \<open>None\<close>
  and has not called \<open>Chroma.from_documents\<close>.
\<close>

theorem empty_corpus_builds_no_index:
  assumes "load_sources env self = (st, None)"
    and "filter_complex_metadata env (all_chunks st) = []"
  shows "snd (generate_vectorstore env self) = Inr None \<and>
         index_calls (fst (generate_vectorstore env self)) = []"
proof -
  from assms(1) have "index_calls st = []" by (rule load_sources_index_calls)
  with build_index_empty [OF assms(2)] assms(1) show ?thesis
    by (simp add: generate_vectorstore_def)
qed

lemma offline_screener:
  "screener_source offline url st = (st, Some (LibraryError (str ''connection refused'')))"
  by (simp add: screener_source_def offline_def)

lemma offline_more_simps:
  "excel_loader offline path = Inl (LibraryError (str ''no such file''))"
  by (simp add: offline_def)

lemma one_screener_page_sources:
  "load_sources offline one_screener_page =
     (log_to (WarningFailed (str ''https://www.screener.in/company/ABFRL/'')
                (LibraryError (str ''connection refused'')))
        (log_to (Info (str ''Extracting Screener data dynamically...''))
          (log_to (Info (str ''Loading excel spreadsheets...''))
            (log_to (Info (str ''Loading PDF documents...''))
              (log_to (Info (str ''Loading documents from web...'')) initial_state)))),
      None)"
  by (simp add: load_sources_def one_screener_page_def offline_simps offline_screener)

text \<open>C7 on a run whose only source is a Screener page that cannot be fetched.\<close>

theorem empty_corpus_builds_no_index_witness:
  "snd (generate_vectorstore offline one_screener_page) = Inr None \<and>
   index_calls (fst (generate_vectorstore offline one_screener_page)) = []"
proof -
  have "filter_complex_metadata offline (all_chunks
      (log_to (WarningFailed (str ''https://www.screener.in/company/ABFRL/'')
                (LibraryError (str ''connection refused'')))
        (log_to (Info (str ''Extracting Screener data dynamically...''))
          (log_to (Info (str ''Loading excel spreadsheets...''))
            (log_to (Info (str ''Loading PDF documents...''))
              (log_to (Info (str ''Loading documents from web...'')) initial_state)))))) = []"
    by (simp add: offline_simps initial_state_def)
  with one_screener_page_sources show ?thesis
    by (rule empty_corpus_builds_no_index)
qed

section \<open>Failing sources\<close>

lemma screener_pages_append:
  "screener_pages env (urls @ rest) st = screener_pages env rest (screener_pages env urls st)"
  by (induction urls arbitrary: st) (auto split: prod.splits option.splits)

lemma screener_source_fails:
  assumes "fetch_and_parse env url = Inl e \<or>
           (\<exists>soup. fetch_and_parse env url = Inr soup \<and> extract_all soup = Inl e)"
  shows "screener_source env url st = (st, Some e)"
  using assms by (auto simp: screener_source_def)

text \<open>
  The loop over the Screener URLs is inside \<open>try\<close>.  Let fetching the page of a URL
  raise, or the extraction from the page.  Then the loop writes a warning with the URL
  and the exception to the log and goes on with the URLs after it, from the state that
  the URLs before it have left; and the chunks that were in the corpus before the loop
  are in it after the loop.
\<close>

theorem failing_screener_page_is_skipped:
  assumes "fetch_and_parse env url = Inl e \<or>
           (\<exists>soup. fetch_and_parse env url = Inr soup \<and> extract_all soup = Inl e)"
  shows "screener_pages env (before @ url # after) st =
           screener_pages env after (log_to (WarningFailed url e) (screener_pages env before st)) \<and>
         (\<exists>new. all_chunks (screener_pages env (before @ url # after) st) = all_chunks st @ new)"
proof -
  have "screener_source env url s = (s, Some e)" for s
    using assms by (rule screener_source_fails)
  then have "screener_pages env (url # after) s =
      screener_pages env after (log_to (WarningFailed url e) s)" for s
    by simp
  then have "screener_pages env (before @ url # after) st =
      screener_pages env after (log_to (WarningFailed url e) (screener_pages env before st))"
    by (simp add: screener_pages_append)
  moreover have "\<exists>new. all_chunks (screener_pages env (before @ url # after) st) = all_chunks st @ new"
    using later_grows [OF later_screener_pages] by blast
  ultimately show ?thesis by blast
qed

text \<open>Three Screener URLs with the network down, after a web page has been kept: each
  is skipped with a warning, and the chunk of the web page stays.\<close>

theorem failing_screener_page_is_skipped_witness:
  "screener_pages offline [str ''u1'', str ''u2'', str ''u3'']
     (fst (dedup_chunks offline (str ''web'') [page_one] initial_state)) =
     screener_pages offline [str ''u3'']
       (log_to (WarningFailed (str ''u2'') (LibraryError (str ''connection refused'')))
          (screener_pages offline [str ''u1'']
             (fst (dedup_chunks offline (str ''web'') [page_one] initial_state)))) \<and>
   all_chunks (screener_pages offline [str ''u1'', str ''u2'', str ''u3'']
     (fst (dedup_chunks offline (str ''web'') [page_one] initial_state))) =
     [page_one\<lparr>metadata := [(str ''source_type'', JStr (str ''web''))]\<rparr>] \<and>
   log (screener_pages offline [str ''u1'', str ''u2'', str ''u3'']
     (fst (dedup_chunks offline (str ''web'') [page_one] initial_state))) =
     [WarningFailed (str ''u1'') (LibraryError (str ''connection refused'')),
      WarningFailed (str ''u2'') (LibraryError (str ''connection refused'')),
      WarningFailed (str ''u3'') (LibraryError (str ''connection refused''))]"
proof -
  let ?st = "fst (dedup_chunks offline (str ''web'') [page_one] initial_state)"
  have "fetch_and_parse offline (str ''u2'') = Inl (LibraryError (str ''connection refused'')) \<or>
    (\<exists>soup. fetch_and_parse offline (str ''u2'') = Inr soup \<and>
       extract_all soup = Inl (LibraryError (str ''connection refused'')))"
    by (simp add: offline_def)
  from failing_screener_page_is_skipped [OF this, of "[str ''u1'']" "[str ''u3'']" ?st]
  have 1: "screener_pages offline [str ''u1'', str ''u2'', str ''u3''] ?st =
     screener_pages offline [str ''u3'']
       (log_to (WarningFailed (str ''u2'') (LibraryError (str ''connection refused'')))
          (screener_pages offline [str ''u1''] ?st))"
    by simp
  have "?st = initial_state\<lparr>all_chunks := all_chunks initial_state @
        [page_one\<lparr>metadata :=
           AList.update (str ''source_type'') (JStr (str ''web'')) (metadata page_one)\<rparr>],
      seen_hashes := insert (str ''Revenue grew 12 percent in 2023'') (seen_hashes initial_state)\<rparr>"
  proof -
    have "seen_hashes initial_state = {}" by (simp add: initial_state_def)
    then show ?thesis by (simp add: dedup_chunks_step page_one_rich page_one_key)
  qed
  then have st: "all_chunks ?st = [page_one\<lparr>metadata := [(str ''source_type'', JStr (str ''web''))]\<rparr>]"
    "log ?st = []"
    by (simp_all add: initial_state_def page_one_def)
  have 2: "screener_pages offline [str ''u1'', str ''u2'', str ''u3''] s =
      log_to (WarningFailed (str ''u3'') (LibraryError (str ''connection refused'')))
        (log_to (WarningFailed (str ''u2'') (LibraryError (str ''connection refused'')))
          (log_to (WarningFailed (str ''u1'') (LibraryError (str ''connection refused''))) s))" for s
    by (simp add: offline_screener)
  show ?thesis
    by (rule conjI [OF 1]) (simp only: 2, simp add: st log_to_def)
qed

text \<open>
  C8.  The loops over the web pages, the PDF files and the spreadsheets are not inside
  \<open>try\<close>.  A spreadsheet that cannot be loaded ends the run with the exception of the
  loader: the Screener page after it is not visited, and nothing is logged for it.
\<close>

theorem failing_spreadsheet_ends_the_run:
  "generate_vectorstore offline sheet_and_screener_page =
     (log_to (Info (str ''Loading excel spreadsheets...''))
        (log_to (Info (str ''Loading PDF documents...''))
          (log_to (Info (str ''Loading documents from web...'')) initial_state)),
      Inl (LibraryError (str ''no such file'')))"
  by (simp add: generate_vectorstore_def load_sources_def sheet_and_screener_page_def
      offline_simps offline_more_simps)

section \<open>Sections and documents\<close>

lemma section_text_Some_iff:
  "(\<exists>t. section_text env section content = Some t) \<longleftrightarrow> is_str_list_or_dict content"
  by (cases content) (simp_all add: section_text_def is_str_list_or_dict_def)

lemma section_text_prefix:
  "section_text env section content = Some t \<Longrightarrow> take (length section + 1) t = section @ [58]"
  by (cases content) (auto simp: section_text_def str_def)

lemma convert_skips:
  "\<not> is_str_list_or_dict content \<Longrightarrow>
   convert_screener_json_to_documents env ((section, content) # json_data) =
     convert_screener_json_to_documents env json_data"
  using section_text_Some_iff [of env "section" content]
  by (cases "section_text env section content") auto

lemma convert_documents:
  "convert_screener_json_to_documents env json_data = Inr docs \<Longrightarrow>
   list_all2
     (\<lambda>(section, content) doc.
        metadata doc = [(str ''section'', JStr section)] \<and>
        (\<exists>t. section_text env section content = Some t \<and>
             take (length section + 1) t = section @ [58] \<and>
             clean_content (unicode_names env) t = Inr (page_content doc)))
     (filter (\<lambda>(section, content). is_str_list_or_dict content) json_data) docs"
proof (induction json_data arbitrary: docs)
  case Nil
  then show ?case by simp
next
  case (Cons sc json_data)
  obtain sect content where sc: "sc = (sect, content)" by (cases sc)
  show ?case
  proof (cases "section_text env sect content")
    case None
    then have "\<not> is_str_list_or_dict content"
      using section_text_Some_iff [of env sect content] by simp
    with None Cons sc show ?thesis by simp
  next
    case (Some t)
    then have yes: "is_str_list_or_dict content"
      using section_text_Some_iff [of env sect content] by auto
    from Some Cons.prems sc obtain cleaned rest where
      c: "clean_content (unicode_names env) t = Inr cleaned"
      and r: "convert_screener_json_to_documents env json_data = Inr rest"
      and d: "docs = \<lparr>page_content = cleaned, metadata = [(str ''section'', JStr sect)]\<rparr> # rest"
      by (auto split: sum.splits)
    from r have "list_all2
     (\<lambda>(section, content) doc.
        metadata doc = [(str ''section'', JStr section)] \<and>
        (\<exists>t. section_text env section content = Some t \<and>
             take (length section + 1) t = section @ [58] \<and>
             clean_content (unicode_names env) t = Inr (page_content doc)))
     (filter (\<lambda>(section, content). is_str_list_or_dict content) json_data) rest"
      by (rule Cons.IH)
    with yes sc d c Some section_text_prefix [OF Some] show ?thesis by simp
  qed
qed

text \<open>
  C10 (amended).  A section whose value is not a string, a list or a dictionary gives
  no document.  When \<open>_convert_screener_json_to_documents\<close> returns, its documents are,
  in order, those of the sections whose value is a string, a list or a dictionary; the
  document of a section has the metadata \<open>{"section": name}\<close>, and its page content is
  the result of \<open>_clean_content\<close> on a text that begins with the name of the section
  and a colon.
\<close>

theorem sections_become_documents:
  "(\<not> is_str_list_or_dict v \<longrightarrow>
      convert_screener_json_to_documents env ((k, v) # others) =
        convert_screener_json_to_documents env others) \<and>
   (convert_screener_json_to_documents env json_data = Inr docs \<longrightarrow>
      list_all2
        (\<lambda>(section, content) doc.
           metadata doc = [(str ''section'', JStr section)] \<and>
           (\<exists>t. section_text env section content = Some t \<and>
                take (length section + 1) t = section @ [58] \<and>
                clean_content (unicode_names env) t = Inr (page_content doc)))
        (filter (\<lambda>(section, content). is_str_list_or_dict content) json_data) docs)"
  using convert_skips [of v env k others] convert_documents [of env json_data docs]
  by blast

lemma offline_names: "unicode_names offline = (\<lambda>n. None)"
  by (simp add: offline_def)

lemma small_record_documents:
  "convert_screener_json_to_documents offline small_record =
     Inr [\<lparr>page_content = str ''company_name: ACME'',
            metadata = [(str ''section'', JStr (str ''company_name''))]\<rparr>,
          \<lparr>page_content = str ''pros: No debt'',
            metadata = [(str ''section'', JStr (str ''pros''))]\<rparr>]"
  by (simp add: small_record_def section_text_def render_item_def py_str_def offline_names
      str_def eval_text)

text \<open>The amended C10 on a record of four sections, of which a number and a truth value
  give no document.\<close>

theorem sections_become_documents_witness:
  "convert_screener_json_to_documents offline ((str ''rank'', JNum 3) # small_record) =
     convert_screener_json_to_documents offline small_record \<and>
   list_all2
     (\<lambda>(section, content) doc.
        metadata doc = [(str ''section'', JStr section)] \<and>
        (\<exists>t. section_text offline section content = Some t \<and>
             take (length section + 1) t = section @ [58] \<and>
             clean_content (unicode_names offline) t = Inr (page_content doc)))
     [(str ''company_name'', JStr (str ''ACME'')), (str ''pros'', JList [JStr (str ''No debt'')])]
     [\<lparr>page_content = str ''company_name: ACME'',
        metadata = [(str ''section'', JStr (str ''company_name''))]\<rparr>,
      \<lparr>page_content = str ''pros: No debt'',
        metadata = [(str ''section'', JStr (str ''pros''))]\<rparr>]"
proof -
  have 1: "\<not> is_str_list_or_dict (JNum 3)" by (simp add: is_str_list_or_dict_def)
  have 2: "filter (\<lambda>(section, content). is_str_list_or_dict content) small_record =
      [(str ''company_name'', JStr (str ''ACME'')), (str ''pros'', JList [JStr (str ''No debt'')])]"
    by (simp add: small_record_def is_str_list_or_dict_def)
  from sections_become_documents [of "JNum 3" offline "str ''rank''" small_record small_record
      "[\<lparr>page_content = str ''company_name: ACME'',
            metadata = [(str ''section'', JStr (str ''company_name''))]\<rparr>,
          \<lparr>page_content = str ''pros: No debt'',
            metadata = [(str ''section'', JStr (str ''pros''))]\<rparr>]"]
    1 small_record_documents
  show ?thesis unfolding 2 by blast
qed

text \<open>
  C10 as stated fails for a section without content: the document of the empty list
  \<open>pros\<close> has the page content \<open>"pros:"\<close>, which does not begin with \<open>"pros: "\<close>.
\<close>

theorem empty_section_has_no_space_after_colon:
  "convert_screener_json_to_documents offline [(str ''pros'', JList [])] =
     Inr [\<lparr>page_content = str ''pros:'', metadata = [(str ''section'', JStr (str ''pros''))]\<rparr>] \<and>
   take (length (str ''pros: '')) (str ''pros:'') \<noteq> str ''pros: ''"
  by (simp add: section_text_def offline_names str_def eval_text)

section \<open>Concall links\<close>

lemma button_entry_resolved:
  assumes "get_text_stripped [32] button \<noteq> []"
    and "get_attr button (str ''data-url'') = Some path" and "path \<noteq> []"
  shows "button_entry button =
     [JDict [(str ''type'', JStr (get_text_stripped [32] button)),
             (str ''url'', JStr (str ''https://www.screener.in'' @ path))]]"
  using assms by (simp add: button_entry_def Let_def)

lemma concall_of_entries:
  "concall_entries li \<noteq> [] \<Longrightarrow>
   \<exists>date. concall_of li = [JDict [(str ''date'', JStr date), (str ''links'', JList (concall_entries li))]]"
  by (simp add: concall_of_def Let_def)

lemma documents_hold_concalls:
  "extract_documents_links soup data = Inr d \<Longrightarrow>
   \<exists>announcements annual_reports.
     map_of d (str ''documents'') =
       Some (JDict [(str ''announcements'', JList announcements),
                    (str ''annual_reports'', JList annual_reports),
                    (str ''concalls'', JList (extract_concalls soup))])"
  by (auto simp: extract_documents_links_def Let_def update_conv' split: sum.splits)

text \<open>
  C9.  Let \<open>li\<close> be an item of \<open>div.documents.concalls ul.list-links > li\<close>, and in it a
  \<open>button\<close> of the class \<open>concall-link\<close> with a label and with a \<open>data-url\<close> that is
  not empty.  Then the concalls of the page hold an entry for \<open>li\<close> (a date and links)
  whose links hold the label of the button with the URL \<open>https://www.screener.in\<close>
  followed by the \<open>data-url\<close>; and when \<open>extract_documents_links\<close> returns, these concalls
  are under \<open>documents\<close>, \<open>concalls\<close> of the record.
\<close>

theorem concall_button_url_is_resolved:
  assumes li: "li \<in> set (concall_items soup)"
    and button: "button \<in> set (find_all li (is_concall_link ''button''))"
    and label: "get_text_stripped [32] button \<noteq> []"
    and path: "get_attr button (str ''data-url'') = Some path" "path \<noteq> []"
    and returns: "extract_documents_links soup data = Inr d"
  shows "\<exists>date links announcements annual_reports concalls.
     map_of d (str ''documents'') =
       Some (JDict [(str ''announcements'', JList announcements),
                    (str ''annual_reports'', JList annual_reports),
                    (str ''concalls'', JList concalls)]) \<and>
     JDict [(str ''date'', JStr date), (str ''links'', JList links)] \<in> set concalls \<and>
     JDict [(str ''type'', JStr (get_text_stripped [32] button)),
            (str ''url'', JStr (str ''https://www.screener.in'' @ path))] \<in> set links"
proof -
  let ?entry = "JDict [(str ''type'', JStr (get_text_stripped [32] button)),
            (str ''url'', JStr (str ''https://www.screener.in'' @ path))]"
  from button button_entry_resolved [OF label path]
  have entry: "?entry \<in> set (concall_entries li)"
    unfolding concall_entries_def by force
  then have "concall_entries li \<noteq> []" by auto
  then obtain date where
    "concall_of li = [JDict [(str ''date'', JStr date), (str ''links'', JList (concall_entries li))]]"
    using concall_of_entries by blast
  with li have "JDict [(str ''date'', JStr date), (str ''links'', JList (concall_entries li))]
      \<in> set (extract_concalls soup)"
    unfolding extract_concalls_def by force
  with entry documents_hold_concalls [OF returns] show ?thesis by blast
qed

lemma concall_items_example: "concall_items concalls_page = [concall_item]"
  by (simp add: concall_items_def select_def matches_def matches_compound_def soup_tag_def
      concalls_page_def concall_item_def concall_button_def get_attr_def str_def)

lemma concall_buttons_example:
  "find_all concall_item (is_concall_link ''button'') = [concall_button]"
  by (simp add: find_all_def is_concall_link_def named_def has_class_def soup_tag_def
      concall_item_def concall_button_def str_def)

lemma concall_button_label: "get_text_stripped [32] concall_button = str ''Notes''"
  by (simp add: get_text_stripped_def all_strings_def soup_tag_def concall_button_def str_def
      strip_def isspace_def)

lemma concall_button_url: "get_attr concall_button (str ''data-url'') = Some (str ''/concall/123'')"
  by (simp add: get_attr_def concall_button_def str_def)

lemma concalls_page_announcements: "extract_announcements concalls_page = []"
  by (simp add: extract_announcements_def soup_tag_def concalls_page_def concall_item_def
      concall_button_def is_documents_header_def named_def str_def)

lemma concalls_page_annual_reports: "extract_annual_reports concalls_page = Inr []"
  by (simp add: extract_annual_reports_def select_one_def select_def matches_def
      matches_compound_def soup_tag_def concalls_page_def concall_item_def concall_button_def
      get_attr_def str_def)

lemma concalls_page_documents:
  "extract_documents_links concalls_page [] =
     Inr [(str ''documents'',
           JDict [(str ''announcements'', JList []),
                  (str ''annual_reports'', JList []),
                  (str ''concalls'', JList (extract_concalls concalls_page))])]"
  by (simp add: extract_documents_links_def concalls_page_announcements
      concalls_page_annual_reports)

text \<open>C9 on a page with one concall item: a date and a button with
  \<open>data-url="/concall/123"\<close>.\<close>

theorem concall_button_url_is_resolved_witness:
  "concall_item \<in> set (concall_items concalls_page) \<and>
   concall_button \<in> set (find_all concall_item (is_concall_link ''button'')) \<and>
   get_text_stripped [32] concall_button = str ''Notes'' \<and>
   get_attr concall_button (str ''data-url'') = Some (str ''/concall/123'') \<and>
   (\<exists>d date links announcements annual_reports concalls.
     extract_documents_links concalls_page [] = Inr d \<and>
     map_of d (str ''documents'') =
       Some (JDict [(str ''announcements'', JList announcements),
                    (str ''annual_reports'', JList annual_reports),
                    (str ''concalls'', JList concalls)]) \<and>
     JDict [(str ''date'', JStr date), (str ''links'', JList links)] \<in> set concalls \<and>
     JDict [(str ''type'', JStr (str ''Notes'')),
            (str ''url'', JStr (str ''https://www.screener.in/concall/123''))] \<in> set links)"
proof -
  have 1: "concall_item \<in> set (concall_items concalls_page)"
    by (simp add: concall_items_example)
  have 2: "concall_button \<in> set (find_all concall_item (is_concall_link ''button''))"
    by (simp add: concall_buttons_example)
  have 3: "get_text_stripped [32] concall_button \<noteq> []"
    by (simp add: concall_button_label str_def)
  have 4: "str ''/concall/123'' \<noteq> []" by (simp add: str_def)
  have 5: "str ''https://www.screener.in'' @ str ''/concall/123'' =
      str ''https://www.screener.in/concall/123''" by (simp add: str_def)
  from concall_button_url_is_resolved [OF 1 2 3 concall_button_url 4 concalls_page_documents]
  show ?thesis
    unfolding concall_button_label 5
    using 1 2 concall_button_label concall_button_url concalls_page_documents by blast
qed

section \<open>Tables\<close>

lemma map_of_store_table_other:
  "table_name H page j \<noteq> Some k \<Longrightarrow> map_of (store_table H page j d) k = map_of d k"
  by (auto simp: store_table_def table_name_def update_conv' split: option.splits)

lemma map_of_store_table_same:
  "find_previous page i H = Some header \<Longrightarrow>
   map_of (store_table H page i d) (strip (text_of header)) =
     Some (JList (table_rows (node (page ! i))))"
  by (simp add: store_table_def update_conv')

lemma fold_store_table_other:
  "\<forall>j\<in>set js. table_name H page j \<noteq> Some k \<Longrightarrow>
   map_of (fold (store_table H page) js d) k = map_of d k"
  by (induction js arbitrary: d) (simp_all add: map_of_store_table_other)

lemma filter_upt_split:
  assumes "i < n" and "P i"
  shows "filter P [0..<n] = filter P [0..<i] @ i # filter P [Suc i..<n]"
proof -
  from assms(1) obtain k where n: "n = i + k" using less_imp_add_positive by blast
  have "[0..<i + k] = [0..<i] @ [i..<i + k]" by (rule upt_add_eq_append) simp
  moreover from assms(1) have "[i..<n] = i # [Suc i..<n]" by (rule upt_conv_Cons)
  ultimately have "[0..<n] = [0..<i] @ i # [Suc i..<n]" using n by simp
  with assms(2) show ?thesis by simp
qed

lemma last_table_is_stored:
  assumes i: "i < length page" and table: "is_data_table (node (page ! i))"
    and header: "find_previous page i H = Some header"
    and last: "is_last_of_its_name H page i"
  shows "map_of (fold (store_table H page)
            (filter (\<lambda>i. is_data_table (node (page ! i))) [0..<length page]) data)
           (strip (text_of header)) =
         Some (JList (table_rows (node (page ! i))))"
proof -
  let ?k = "strip (text_of header)"
  from header have name: "table_name H page i = Some ?k" by (simp add: table_name_def)
  from last name have "\<forall>j\<in>set (later_tables page i). table_name H page j \<noteq> Some ?k"
    by (simp add: is_last_of_its_name_def)
  then have later: "\<forall>j\<in>set (filter (\<lambda>i. is_data_table (node (page ! i))) [Suc i..<length page]).
      table_name H page j \<noteq> Some ?k"
    by (simp add: later_tables_def)
  show ?thesis
    unfolding filter_upt_split [of i "length page" "\<lambda>i. is_data_table (node (page ! i))", OF i table]
    by (simp add: fold_store_table_other [OF later] map_of_store_table_same [OF header])
qed

lemma update_new: "k \<notin> fst ` set al \<Longrightarrow> AList.update k v al = al @ [(k, v)]"
  by (induction al) auto

lemma fold_zip_distinct:
  "distinct headers \<Longrightarrow> set headers \<inter> fst ` set acc = {} \<Longrightarrow>
   fold (\<lambda>(k, v). AList.update k (JStr v)) (zip headers cells) acc =
     acc @ zip headers (map JStr cells)"
proof (induction headers arbitrary: cells acc)
  case Nil
  then show ?case by simp
next
  case (Cons h hs)
  show ?case
  proof (cases cells)
    case Nil
    then show ?thesis by simp
  next
    case (Cons c cs)
    from Cons.prems have new: "h \<notin> fst ` set acc" by auto
    from Cons.prems have "distinct hs" "set hs \<inter> fst ` set (acc @ [(h, JStr c)]) = {}" by auto
    from Cons.IH [OF this] show ?thesis
      using Cons new by (simp add: update_new)
  qed
qed

lemma zip_dict_distinct:
  "distinct headers \<Longrightarrow> zip_dict headers cells = zip headers (map JStr cells)"
  using fold_zip_distinct [of headers "[]" cells] by (simp add: zip_dict_def)

lemma table_rows_data_rows:
  "table_rows table =
     map (\<lambda>tr. JDict (zip_dict (header_texts table) (row_cells tr))) (data_rows table)"
  by (simp add: table_rows_def data_rows_def header_texts_def row_cells_def Let_def
      filter_map comp_def)

text \<open>
  C6 (amended).  Let the tag at position \<open>i\<close> of the page be a data table.  In
  \<open>fintastic.py\<close>, when \<open>find_previous(["h2", "h3"])\<close> finds a heading and no later data
  table has a heading of the same stripped text, the record holds the rows of the table
  under the stripped text of the heading; in \<open>fin_data_extractor.py\<close> the same holds with
  \<open>find_previous("h2")\<close>.  The rows are those of the \<open>tr\<close> tags after the first that have a
  \<open>td\<close> cell, in order, each the dictionary of the \<open>zip\<close> of the texts of all \<open>th\<close> cells
  of the table with the texts of the \<open>td\<close> cells of the row; when the header texts differ
  from one another this dictionary is the list of the pairs of the \<open>zip\<close>, which ends with
  the shorter of the two.
\<close>

theorem data_table_is_stored_under_its_heading:
  assumes page: "page = descendants (soup_tag soup)"
    and i: "i < length page"
    and table: "node (page ! i) = table" "is_data_table table"
  shows
   "(find_previous page i is_h2_or_h3 = Some header \<and> is_last_of_its_name is_h2_or_h3 page i \<longrightarrow>
       map_of (extract_tables soup data) (strip (text_of header)) =
         Some (JList (table_rows table))) \<and>
    (find_previous page i (named (str ''h2'')) = Some header2 \<and>
     is_last_of_its_name (named (str ''h2'')) page i \<longrightarrow>
       map_of (extract_tables_static soup data) (strip (text_of header2)) =
         Some (JList (table_rows table))) \<and>
    table_rows table =
      map (\<lambda>tr. JDict (zip_dict (header_texts table) (row_cells tr))) (data_rows table) \<and>
    (distinct headers \<longrightarrow> zip_dict headers cells = zip headers (map JStr cells))"
proof -
  from table have t: "is_data_table (node (page ! i))" by simp
  have 1: "map_of (extract_tables soup data) (strip (text_of header)) =
         Some (JList (table_rows table))"
    if "find_previous page i is_h2_or_h3 = Some header" "is_last_of_its_name is_h2_or_h3 page i"
    using last_table_is_stored [OF i t that, of data] table(1) page
    by (simp add: extract_tables_def Let_def)
  have 2: "map_of (extract_tables_static soup data) (strip (text_of header2)) =
         Some (JList (table_rows table))"
    if "find_previous page i (named (str ''h2'')) = Some header2"
      "is_last_of_its_name (named (str ''h2'')) page i"
    using last_table_is_stored [OF i t that, of data] table(1) page
    by (simp add: extract_tables_static_def Let_def)
  from 1 2 table_rows_data_rows [of table] zip_dict_distinct [of headers cells]
  show ?thesis by blast
qed

lemma results_page_length: "length (descendants (soup_tag results_page)) = 19"
  by (simp add: soup_tag_def results_page_def year_table_def)

lemma results_page_table: "node (descendants (soup_tag results_page) ! 4) = year_table ''100''"
  by (simp add: soup_tag_def results_page_def year_table_def)

lemma year_table_is_data_table: "is_data_table (year_table sales)"
  by (simp add: is_data_table_def named_def has_class_def year_table_def)

lemma results_page_heading:
  "find_previous (descendants (soup_tag results_page)) 4 is_h2_or_h3 =
     Some (el ''h2'' [] [] [Text (str ''Quarterly Results'')])"
  "find_previous (descendants (soup_tag results_page)) 4 (named (str ''h2'')) =
     Some (el ''h2'' [] [] [Text (str ''Quarterly Results'')])"
  by (simp_all add: find_previous_def is_h2_or_h3_def named_def soup_tag_def results_page_def
      year_table_def str_def)

lemma results_page_later_tables: "later_tables (descendants (soup_tag results_page)) 4 = []"
  by (simp add: later_tables_def is_data_table_def named_def has_class_def soup_tag_def
      results_page_def year_table_def str_def)

lemma heading_text:
  "strip (text_of (Element n c a [Text (str ''Quarterly Results'')])) = str ''Quarterly Results''"
  by (simp add: text_of_def all_strings_def soup_tag_def strip_def isspace_def str_def)

lemma year_table_rows:
  "table_rows (year_table ''100'') =
     [JDict [(str ''Year'', JStr (str ''2023'')), (str ''Sales'', JStr (str ''100''))],
      JDict [(str ''Year'', JStr (str ''2024''))]]"
  by (simp add: table_rows_def row_cells_def zip_dict_def find_all_def named_def soup_tag_def
      year_table_def text_of_def all_strings_def strip_def isspace_def str_def)

text \<open>The amended C6 on a page with the heading \<open>Quarterly Results\<close> and a table with the
  header row \<open>Year\<close>, \<open>Sales\<close>, a row of two cells, a row of one cell and a row without
  cells.\<close>

theorem data_table_is_stored_under_its_heading_witness:
  "node (descendants (soup_tag results_page) ! 4) = year_table ''100'' \<and>
   is_data_table (year_table ''100'') \<and>
   map_of (extract_tables results_page []) (str ''Quarterly Results'') =
     Some (JList [JDict [(str ''Year'', JStr (str ''2023'')), (str ''Sales'', JStr (str ''100''))],
                  JDict [(str ''Year'', JStr (str ''2024''))]]) \<and>
   map_of (extract_tables_static results_page []) (str ''Quarterly Results'') =
     Some (JList [JDict [(str ''Year'', JStr (str ''2023'')), (str ''Sales'', JStr (str ''100''))],
                  JDict [(str ''Year'', JStr (str ''2024''))]]) \<and>
   zip_dict [str ''Year'', str ''Sales''] [str ''2024''] = [(str ''Year'', JStr (str ''2024''))]"
proof -
  let ?h = "el ''h2'' [] [] [Text (str ''Quarterly Results'')]"
  have i: "4 < length (descendants (soup_tag results_page))"
    unfolding results_page_length by simp
  have last: "is_last_of_its_name H (descendants (soup_tag results_page)) 4" for H
    unfolding is_last_of_its_name_def results_page_later_tables by simp
  have d: "distinct [str ''Year'', str ''Sales'']" by (simp add: str_def)
  have z: "zip [str ''Year'', str ''Sales''] (map JStr [str ''2024'']) =
      [(str ''Year'', JStr (str ''2024''))]" by simp
  from data_table_is_stored_under_its_heading
    [OF refl i results_page_table year_table_is_data_table,
      of ?h "[]" ?h "[str ''Year'', str ''Sales'']" "[str ''2024'']"]
    results_page_heading last d
  have "map_of (extract_tables results_page []) (strip (text_of ?h)) =
          Some (JList (table_rows (year_table ''100'')))"
    and "map_of (extract_tables_static results_page []) (strip (text_of ?h)) =
          Some (JList (table_rows (year_table ''100'')))"
    and "zip_dict [str ''Year'', str ''Sales''] [str ''2024''] =
          zip [str ''Year'', str ''Sales''] (map JStr [str ''2024''])"
    by blast+
  then show ?thesis
    unfolding heading_text year_table_rows z
    using results_page_table year_table_is_data_table by blast
qed

lemma two_tables_page_length: "length (descendants (soup_tag two_tables_page)) = 32"
  by (simp add: soup_tag_def two_tables_page_def year_table_def)

lemma upt_32: "[0..<32] = [0,1,2,3,4,5,6,7,8,9,10,11,12,13,14,15,16,17,18,19,20,21,22,23,24,25,26,27,28,29,30,31]"
  by (simp add: upt_conv_Cons)

lemma two_tables_page_tables:
  "filter (\<lambda>i. is_data_table (node (descendants (soup_tag two_tables_page) ! i)))
     [0..<length (descendants (soup_tag two_tables_page))] = [2, 17]"
  unfolding two_tables_page_length upt_32
  by (simp add: is_data_table_def named_def has_class_def soup_tag_def two_tables_page_def
      year_table_def str_def)

lemma two_tables_page_nodes:
  "node (descendants (soup_tag two_tables_page) ! 2) = year_table ''100''"
  "node (descendants (soup_tag two_tables_page) ! 17) = year_table ''200''"
  by (simp_all add: soup_tag_def two_tables_page_def year_table_def)

lemma two_tables_page_headings:
  "find_previous (descendants (soup_tag two_tables_page)) 2 is_h2_or_h3 =
     Some (el ''h2'' [] [] [Text (str ''Balance Sheet'')])"
  "find_previous (descendants (soup_tag two_tables_page)) 17 is_h2_or_h3 =
     Some (el ''h2'' [] [] [Text (str ''Balance Sheet'')])"
  "find_previous (descendants (soup_tag two_tables_page)) 2 (named (str ''h2'')) =
     Some (el ''h2'' [] [] [Text (str ''Balance Sheet'')])"
  "find_previous (descendants (soup_tag two_tables_page)) 17 (named (str ''h2'')) =
     Some (el ''h2'' [] [] [Text (str ''Balance Sheet'')])"
  by (simp_all add: find_previous_def is_h2_or_h3_def named_def soup_tag_def two_tables_page_def
      year_table_def str_def)

lemma balance_sheet_text:
  "strip (text_of (Element n c a [Text (str ''Balance Sheet'')])) = str ''Balance Sheet''"
  by (simp add: text_of_def all_strings_def soup_tag_def strip_def isspace_def str_def)

lemma second_year_table_rows:
  "table_rows (year_table ''200'') =
     [JDict [(str ''Year'', JStr (str ''2023'')), (str ''Sales'', JStr (str ''200''))],
      JDict [(str ''Year'', JStr (str ''2024''))]]"
  by (simp add: table_rows_def row_cells_def zip_dict_def find_all_def named_def soup_tag_def
      year_table_def text_of_def all_strings_def strip_def isspace_def str_def)

lemma two_tables_page_record:
  "fold (store_table H (descendants (soup_tag two_tables_page))) [2, 17] [] =
     [(str ''Balance Sheet'', JList (table_rows (year_table ''200'')))]"
  if "find_previous (descendants (soup_tag two_tables_page)) 2 H =
     Some (el ''h2'' [] [] [Text (str ''Balance Sheet'')])"
   "find_previous (descendants (soup_tag two_tables_page)) 17 H =
     Some (el ''h2'' [] [] [Text (str ''Balance Sheet'')])"
  unfolding fold_simps store_table_def that two_tables_page_nodes option.case balance_sheet_text
  by simp

text \<open>
  C6 as stated fails for two data tables after one heading: both are stored under the
  text of the heading, the second in place of the first, and the rows of the first
  table are not in the record.
\<close>

theorem first_of_two_tables_is_overwritten:
  "node (descendants (soup_tag two_tables_page) ! 2) = year_table ''100'' \<and>
   is_data_table (year_table ''100'') \<and>
   find_previous (descendants (soup_tag two_tables_page)) 2 is_h2_or_h3 =
     Some (el ''h2'' [] [] [Text (str ''Balance Sheet'')]) \<and>
   extract_tables two_tables_page [] =
     [(str ''Balance Sheet'', JList (table_rows (year_table ''200'')))] \<and>
   extract_tables_static two_tables_page [] =
     [(str ''Balance Sheet'', JList (table_rows (year_table ''200'')))] \<and>
   table_rows (year_table ''100'') \<noteq> table_rows (year_table ''200'')"
proof -
  have 1: "extract_tables two_tables_page [] =
     [(str ''Balance Sheet'', JList (table_rows (year_table ''200'')))]"
    unfolding extract_tables_def Let_def two_tables_page_tables
    by (rule two_tables_page_record) (rule two_tables_page_headings)+
  have 2: "extract_tables_static two_tables_page [] =
     [(str ''Balance Sheet'', JList (table_rows (year_table ''200'')))]"
    unfolding extract_tables_static_def Let_def two_tables_page_tables
    by (rule two_tables_page_record) (rule two_tables_page_headings)+
  have 3: "table_rows (year_table ''100'') \<noteq> table_rows (year_table ''200'')"
    unfolding year_table_rows second_year_table_rows by (simp add: str_def)
  from 1 2 3 two_tables_page_nodes(1) year_table_is_data_table [of "''100''"]
    two_tables_page_headings(1)
  show ?thesis by blast
qed

section \<open>Pages without the expected tags\<close>

lemma plain_page_no_heading: "select_one (soup_tag plain_page) (by_name ''h1'', []) = None"
  by (simp add: select_one_def select_def matches_def matches_compound_def soup_tag_def
      plain_page_def str_def)

lemma plain_page_static: "extract_all_static plain_page = Inl AttributeError"
  by (simp add: extract_all_static_def extract_company_name_static_def plain_page_no_heading)

lemma plain_page_company_name: "extract_company_name plain_page data = data"
  by (simp add: extract_company_name_def plain_page_no_heading)

lemma extract_all_static_raises_iff:
  "extract_all_static soup = Inl e \<longleftrightarrow>
   e = AttributeError \<and> select_one (soup_tag soup) (by_name ''h1'', []) = None"
  by (auto simp: extract_all_static_def extract_company_name_static_def Let_def
      split: option.splits)

lemma extract_all_raises_iff:
  "extract_all soup = Inl e \<longleftrightarrow> extract_annual_reports soup = Inl e"
  by (auto simp: extract_all_def extract_documents_links_def Let_def split: sum.splits)

lemma plain_page_annual_reports: "extract_annual_reports plain_page = Inr []"
  by (simp add: extract_annual_reports_def select_one_def select_def matches_def
      matches_compound_def soup_tag_def plain_page_def str_def)

lemma plain_page_returns: "\<exists>data. extract_all plain_page = Inr data"
  using extract_all_raises_iff [of plain_page] plain_page_annual_reports
  by (cases "extract_all plain_page") auto

text \<open>In \<open>fintastic.py\<close> the only step that can raise is the loop over the annual
  reports: \<open>a_tag.contents[0].strip()\<close> raises when the link begins with a tag, as in
  \<open><a href="/r.pdf"><span>2023</span></a>\<close>, or has no contents.\<close>

lemma report_page_raises: "extract_all report_page = Inl TypeError"
  unfolding extract_all_raises_iff
  by (simp add: extract_annual_reports_def select_one_def select_def matches_def
      matches_compound_def soup_tag_def report_page_def str_def find_all_def find_first_def
      first_content_stripped_def named_def)

lemma plain_page_record:
  "extract_all plain_page =
     Inr [(str ''company_info'', JDict []),
          (str ''pros'', JList []),
          (str ''cons'', JList []),
          (str ''documents'',
           JDict [(str ''announcements'', JList []),
                  (str ''annual_reports'', JList []),
                  (str ''concalls'', JList [])])]"
proof -
  have 1: "extract_company_info plain_page data = AList.update (str ''company_info'') (JDict []) data"
    for data
    by (simp add: extract_company_info_def select_one_def select_def matches_def
        matches_compound_def soup_tag_def plain_page_def str_def)
  have 2: "extract_pros_cons plain_page data =
      AList.update (str ''cons'') (JList []) (AList.update (str ''pros'') (JList []) data)" for data
    by (simp add: extract_pros_cons_def extract_text_list_def select_def matches_def
        matches_compound_def soup_tag_def plain_page_def str_def)
  have 3: "extract_tables plain_page data = data" for data
    by (simp add: extract_tables_def is_data_table_def named_def soup_tag_def plain_page_def
        str_def)
  have 4: "extract_shareholding_pattern plain_page data = data" for data
    by (simp add: extract_shareholding_pattern_def is_shareholding_header_def named_def
        soup_tag_def plain_page_def str_def)
  have 5: "extract_announcements plain_page = []"
    by (simp add: extract_announcements_def is_documents_header_def named_def soup_tag_def
        plain_page_def str_def)
  have 6: "extract_concalls plain_page = []"
    by (simp add: extract_concalls_def concall_items_def select_def matches_def
        matches_compound_def soup_tag_def plain_page_def str_def)
  show ?thesis
    unfolding extract_all_def Let_def plain_page_company_name 1 2 3 4
      extract_documents_links_def 5 6 plain_page_annual_reports
    by (simp add: str_def)
qed

text \<open>
  C3.  On a page without \<open>h1\<close>, \<open>extract_all\<close> of \<open>fin_data_extractor.py\<close> raises
  \<open>AttributeError\<close>: its \<open>extract_company_name\<close> reads \<open>.text\<close> of the result of
  \<open>select_one("h1")\<close>, which is \<open>None\<close>.  On the same page \<open>extract_all\<close> of
  \<open>fintastic.py\<close>, whose \<open>extract_company_name\<close> tests \<open>if title\<close>, returns a record
  without company name and with empty fields.
\<close>

theorem page_without_heading_raises_in_static_extractor:
  "select_one (soup_tag plain_page) (by_name ''h1'', []) = None \<and>
   extract_all_static plain_page = Inl AttributeError \<and>
   extract_all plain_page =
     Inr [(str ''company_info'', JDict []),
          (str ''pros'', JList []),
          (str ''cons'', JList []),
          (str ''documents'',
           JDict [(str ''announcements'', JList []),
                  (str ''annual_reports'', JList []),
                  (str ''concalls'', JList [])])]"
  using plain_page_no_heading plain_page_static plain_page_record by blast

end
